theory Spec2Isabelle
  imports Main "HOL-Library.AList"
begin

section \<open>JavaScript values\<close>

text \<open>
  The values that widgets, payloads and responses of \<^verbatim>\<open>web/chat_optimize.js\<close> carry.
  Numbers are restricted to the integers that JavaScript prints in plain decimal: the
  code only copies numbers, tests them for truthiness and renders them in a template
  string. Objects are association lists in insertion order.
\<close>

datatype jsval =
    JUndef
  | JNull
  | JBool bool
  | JNum int
  | JStr string
  | JObj "(string \<times> jsval) list"

text \<open>JavaScript truthiness, as the tests \<^verbatim>\<open>if (x)\<close> and \<^verbatim>\<open>x || y\<close> read it.\<close>

fun truthy :: "jsval \<Rightarrow> bool" where
  "truthy JUndef = False"
| "truthy JNull = False"
| "truthy (JBool b) = b"
| "truthy (JNum n) = (n \<noteq> 0)"
| "truthy (JStr s) = (s \<noteq> [])"
| "truthy (JObj kvs) = True"

text \<open>\<^verbatim>\<open>v || ""\<close>\<close>

definition or_empty :: "jsval \<Rightarrow> jsval" where
  "or_empty v = (if truthy v then v else JStr [])"

text \<open>\<^verbatim>\<open>v ?? ""\<close>\<close>

definition nullish_or_empty :: "jsval \<Rightarrow> jsval" where
  "nullish_or_empty v = (if v = JUndef \<or> v = JNull then JStr [] else v)"

text \<open>
  The decimal digits of a number, as \<^verbatim>\<open>String(n)\<close> gives them for magnitudes below
  \<^verbatim>\<open>1e21\<close> (from there on JavaScript prints an exponent, which is not modelled).
\<close>

fun dec_nat :: "nat \<Rightarrow> string" where
  "dec_nat n =
     (if n < 10 then [''0123456789'' ! n]
      else dec_nat (n div 10) @ [''0123456789'' ! (n mod 10)])"

declare dec_nat.simps [simp del]

definition dec_int :: "int \<Rightarrow> string" where
  "dec_int i = (if i < 0 then CHR ''-'' # dec_nat (nat (- i)) else dec_nat (nat i))"

text \<open>String conversion, as a template literal or a DOM string property applies it.\<close>

fun to_str :: "jsval \<Rightarrow> string" where
  "to_str JUndef = ''undefined''"
| "to_str JNull = ''null''"
| "to_str (JBool b) = (if b then ''true'' else ''false'')"
| "to_str (JNum n) = dec_int n"
| "to_str (JStr s) = s"
| "to_str (JObj kvs) = ''[object Object]''"

text \<open>Property read \<^verbatim>\<open>obj.k\<close> on an object: \<^verbatim>\<open>undefined\<close> when the key is absent.\<close>

definition get_prop :: "(string \<times> jsval) list \<Rightarrow> string \<Rightarrow> jsval" where
  "get_prop obj k = (case map_of obj k of None \<Rightarrow> JUndef | Some v \<Rightarrow> v)"

section \<open>The node graph\<close>

text \<open>
  A change callback (\<^verbatim>\<open>w.onChange\<close>) is either a function of the host editor, which is
  opaque here, or the wrapper that \<^verbatim>\<open>setupHistoryViewer\<close> installs, which holds the
  callback it replaced (\<^verbatim>\<open>originalOnChange\<close>).
\<close>

datatype callback =
    HostCallback nat
  | ViewerOnChange "callback option"

text \<open>
  A widget: its name, its value, its optional change callback and the text of its
  backing input element (\<^verbatim>\<open>inputEl.value\<close>) when it has one.
\<close>

record widget =
  w_name :: string
  w_value :: jsval
  w_onChange :: "callback option"
  w_inputEl :: "string option"

text \<open>
  An input slot: \<open>i_link\<close> is the link id or \<^verbatim>\<open>null\<close>; \<open>i_widget\<close> is
  \<^verbatim>\<open>input.widget.name\<close> when the input is bound to a widget.
\<close>

record input_slot =
  i_name :: string
  i_link :: "nat option"
  i_widget :: "string option"

record output_slot =
  o_links :: "nat list option"

record link =
  origin_id :: nat
  target_id :: nat
  target_slot :: nat

record node =
  n_widgets :: "widget list option"
  n_inputs :: "input_slot list option"
  n_outputs :: "output_slot list option"

text \<open>The module variable \<^verbatim>\<open>historyModal\<close>: the overlay element and its content.\<close>

record modal =
  overlay_elem :: nat
  overlay_display :: string
  content_text :: string

text \<open>Functions handed to \<^verbatim>\<open>setTimeout\<close>, in the order they were scheduled.\<close>

datatype timer =
    ScrollModalBottom
  | ScrollInputBottom nat string

text \<open>
  The trace records every assignment to a widget's \<^verbatim>\<open>value\<close> (with whether the widget
  had a change callback at that moment), every call of a change callback and every
  \<^verbatim>\<open>setDirtyCanvas\<close>, in program order.
\<close>

datatype event =
    EvWrite nat string jsval bool
  | EvCallback nat string jsval
  | EvDirty nat

text \<open>
  The state the module works on: \<^verbatim>\<open>app.graph.getNodeById\<close>, \<^verbatim>\<open>app.graph.links\<close>,
  the module variable \<^verbatim>\<open>historyModal\<close>, the children appended to \<^verbatim>\<open>document.body\<close>,
  the number of \<^verbatim>\<open>keydown\<close> listeners on the document, the pending timers and the
  trace. A node is addressed by the id the graph knows it under.
\<close>

record state =
  graph_nodes :: "nat \<Rightarrow> node option"
  graph_links :: "nat \<Rightarrow> link option"
  historyModal :: "modal option"
  body_children :: "nat list"
  keydown_listeners :: nat
  timers :: "timer list"
  trace :: "event list"

text \<open>Array read \<^verbatim>\<open>xs[i]\<close>: \<^verbatim>\<open>undefined\<close> out of range.\<close>

definition nth_opt :: "'a list \<Rightarrow> nat \<Rightarrow> 'a option" where
  "nth_opt xs i = (if i < length xs then Some (xs ! i) else None)"

text \<open>\<^verbatim>\<open>node.widgets?.find((w) => w.name === name)\<close>\<close>

definition find_widget :: "string \<Rightarrow> widget list option \<Rightarrow> widget option" where
  "find_widget nm wso =
     (case wso of None \<Rightarrow> None | Some ws \<Rightarrow> find (\<lambda>w. w_name w = nm) ws)"

text \<open>\<^verbatim>\<open>node.widgets\<close> of the node with id \<open>nid\<close>.\<close>

definition node_widgets :: "state \<Rightarrow> nat \<Rightarrow> widget list option" where
  "node_widgets s nid = (case graph_nodes s nid of None \<Rightarrow> None | Some n \<Rightarrow> n_widgets n)"

definition widget_at :: "state \<Rightarrow> nat \<Rightarrow> string \<Rightarrow> widget option" where
  "widget_at s nid nm = find_widget nm (node_widgets s nid)"

text \<open>
  \<^verbatim>\<open>node.widgets?.find((w) => w.name === name)?.value\<close>, with \<open>None\<close> when there is no
  such widget.
\<close>

definition widget_value :: "state \<Rightarrow> nat \<Rightarrow> string \<Rightarrow> jsval option" where
  "widget_value s nid nm = map_option w_value (widget_at s nid nm)"

text \<open>
  A mutation of the widget object that \<^verbatim>\<open>find\<close> returned: the first widget of that
  name in the node's list.
\<close>

fun upd_first :: "string \<Rightarrow> (widget \<Rightarrow> widget) \<Rightarrow> widget list \<Rightarrow> widget list" where
  "upd_first nm f [] = []"
| "upd_first nm f (w # ws) = (if w_name w = nm then f w # ws else w # upd_first nm f ws)"

definition modify_widget :: "nat \<Rightarrow> string \<Rightarrow> (widget \<Rightarrow> widget) \<Rightarrow> state \<Rightarrow> state" where
  "modify_widget nid nm f s =
     (case graph_nodes s nid of
        None \<Rightarrow> s
      | Some n \<Rightarrow>
          s\<lparr>graph_nodes :=
              (graph_nodes s)(nid \<mapsto> n\<lparr>n_widgets := map_option (upd_first nm f) (n_widgets n)\<rparr>)\<rparr>)"

text \<open>Whether the widget has a change callback (\<^verbatim>\<open>w.onChange\<close> is set).\<close>

definition has_callback :: "state \<Rightarrow> nat \<Rightarrow> string \<Rightarrow> bool" where
  "has_callback s nid nm =
     (case widget_at s nid nm of None \<Rightarrow> False | Some w \<Rightarrow> w_onChange w \<noteq> None)"

text \<open>\<^verbatim>\<open>w.value = v\<close>, recorded in the trace.\<close>

definition write_value :: "nat \<Rightarrow> string \<Rightarrow> jsval \<Rightarrow> state \<Rightarrow> state" where
  "write_value nid nm v s =
     (modify_widget nid nm (\<lambda>w. w\<lparr>w_value := v\<rparr>) s)
       \<lparr>trace := trace s @ [EvWrite nid nm v (has_callback s nid nm)]\<rparr>"

text \<open>\<^verbatim>\<open>node.setDirtyCanvas(true, true)\<close>\<close>

definition setDirtyCanvas :: "nat \<Rightarrow> state \<Rightarrow> state" where
  "setDirtyCanvas nid s = s\<lparr>trace := trace s @ [EvDirty nid]\<rparr>"

section \<open>The history modal\<close>

text \<open>
  \<^verbatim>\<open>ensureHistoryModal\<close>: the existing modal, or a new one, hidden and empty, whose overlay
  is appended to the body and whose key listener is attached to the document. An
  overlay element is named by its position among the children appended to the body.
\<close>

definition ensureHistoryModal :: "state \<Rightarrow> state" where
  "ensureHistoryModal s =
     (case historyModal s of
        Some m \<Rightarrow> s
      | None \<Rightarrow>
          s\<lparr>historyModal :=
              Some \<lparr>overlay_elem = length (body_children s),
                    overlay_display = ''none'', content_text = []\<rparr>,
            body_children := body_children s @ [length (body_children s)],
            keydown_listeners := Suc (keydown_listeners s)\<rparr>)"

text \<open>
  \<^verbatim>\<open>openHistoryModal(text)\<close>: the content set to \<^verbatim>\<open>text || ""\<close>, the overlay shown, the
  scroll of the content to its bottom scheduled.
\<close>

definition openHistoryModal :: "jsval \<Rightarrow> state \<Rightarrow> state" where
  "openHistoryModal text s =
     (let s1 = ensureHistoryModal s
      in s1\<lparr>historyModal :=
               map_option
                 (\<lambda>m. m\<lparr>content_text := to_str (or_empty text), overlay_display := ''flex''\<rparr>)
                 (historyModal s1),
             timers := timers s1 @ [ScrollModalBottom]\<rparr>)"

definition closeHistoryModal :: "state \<Rightarrow> state" where
  "closeHistoryModal s =
     (case historyModal s of
        None \<Rightarrow> s
      | Some m \<Rightarrow> s\<lparr>historyModal := Some (m\<lparr>overlay_display := ''none''\<rparr>)\<rparr>)"

definition isHistoryModalOpen :: "state \<Rightarrow> bool" where
  "isHistoryModalOpen s =
     (case historyModal s of None \<Rightarrow> False | Some m \<Rightarrow> overlay_display m \<noteq> ''none'')"

section \<open>Change callbacks\<close>

text \<open>
  \<^verbatim>\<open>if (inputEl && inputEl.value !== v) inputEl.value = v || ""\<close> on a widget.
\<close>

definition mirror_input :: "jsval \<Rightarrow> widget \<Rightarrow> widget" where
  "mirror_input v w =
     (case w_inputEl w of
        None \<Rightarrow> w
      | Some el \<Rightarrow>
          if JStr el \<noteq> v then w\<lparr>w_inputEl := Some (to_str (or_empty v))\<rparr> else w)"

text \<open>
  The part of the viewer's \<^verbatim>\<open>onChange\<close> after the call of \<^verbatim>\<open>originalOnChange\<close>: mirror
  the value into the input element when it differs, reopen the modal when it is open,
  schedule the scroll of the input element. The closure's \<^verbatim>\<open>historyWidget\<close> is the
  widget the callback is installed on, here the widget \<open>nm\<close> of node \<open>nid\<close>.
\<close>

definition viewer_sync :: "nat \<Rightarrow> string \<Rightarrow> jsval \<Rightarrow> state \<Rightarrow> state" where
  "viewer_sync nid nm v s =
     (let s2 = modify_widget nid nm (mirror_input v) s;
          s3 = (if isHistoryModalOpen s2 then openHistoryModal (or_empty v) s2 else s2)
      in s3\<lparr>timers := timers s3 @ [ScrollInputBottom nid nm]\<rparr>)"

text \<open>
  Calling a change callback with the value \<open>v\<close> on the widget \<open>nm\<close> of node \<open>nid\<close>.
  A host callback returns normally and leaves the modelled state alone.
\<close>

fun invoke :: "callback \<Rightarrow> nat \<Rightarrow> string \<Rightarrow> jsval \<Rightarrow> state \<Rightarrow> state" where
  "invoke (HostCallback k) nid nm v s = s\<lparr>trace := trace s @ [EvCallback nid nm v]\<rparr>"
| "invoke (ViewerOnChange None) nid nm v s =
     viewer_sync nid nm v (s\<lparr>trace := trace s @ [EvCallback nid nm v]\<rparr>)"
| "invoke (ViewerOnChange (Some c)) nid nm v s =
     viewer_sync nid nm v (invoke c nid nm v (s\<lparr>trace := trace s @ [EvCallback nid nm v]\<rparr>))"

text \<open>\<^verbatim>\<open>if (w.onChange) w.onChange(value)\<close>\<close>

definition notify :: "widget \<Rightarrow> nat \<Rightarrow> string \<Rightarrow> jsval \<Rightarrow> state \<Rightarrow> state" where
  "notify w nid nm v s = (case w_onChange w of None \<Rightarrow> s | Some c \<Rightarrow> invoke c nid nm v s)"

section \<open>Widget access\<close>

text \<open>
  \<^verbatim>\<open>setWidgetValue(node, name, value)\<close>: nothing when the node has no widget of that
  name; otherwise \<^verbatim>\<open>value ?? ""\<close> assigned, the callback called with \<^verbatim>\<open>value\<close>, the canvas
  marked dirty.
\<close>

definition setWidgetValue :: "nat \<Rightarrow> string \<Rightarrow> jsval \<Rightarrow> state \<Rightarrow> state" where
  "setWidgetValue nid nm v s =
     (case widget_at s nid nm of
        None \<Rightarrow> s
      | Some w \<Rightarrow>
          setDirtyCanvas nid (notify w nid nm v (write_value nid nm (nullish_or_empty v) s)))"

section \<open>Output propagation\<close>

text \<open>The body of the \<^verbatim>\<open>forEach\<close> of \<^verbatim>\<open>propagateOutput\<close>, for one link id.\<close>

definition deliver :: "jsval \<Rightarrow> nat \<Rightarrow> state \<Rightarrow> state" where
  "deliver v linkId s =
     (case graph_links s linkId of
        None \<Rightarrow> s
      | Some l \<Rightarrow>
          (case graph_nodes s (target_id l) of
             None \<Rightarrow> s
           | Some targetNode \<Rightarrow>
               (case n_inputs targetNode of
                  None \<Rightarrow> s
                | Some ins \<Rightarrow>
                    (case nth_opt ins (target_slot l) of
                       None \<Rightarrow> s
                     | Some inp \<Rightarrow>
                         (case i_widget inp of
                            None \<Rightarrow> s
                          | Some widgetName \<Rightarrow>
                              (case find_widget widgetName (n_widgets targetNode) of
                                 None \<Rightarrow> s
                               | Some w \<Rightarrow>
                                   setDirtyCanvas (target_id l)
                                     (notify w (target_id l) widgetName v
                                        (write_value (target_id l) widgetName v s))))))))"

text \<open>\<^verbatim>\<open>node.outputs[slotIndex].links\<close>, or nothing when any part is missing.\<close>

definition slot_links :: "state \<Rightarrow> nat \<Rightarrow> nat \<Rightarrow> nat list" where
  "slot_links s nid slotIndex =
     (case graph_nodes s nid of
        None \<Rightarrow> []
      | Some n \<Rightarrow>
          (case n_outputs n of
             None \<Rightarrow> []
           | Some outs \<Rightarrow>
               (case nth_opt outs slotIndex of
                  None \<Rightarrow> []
                | Some out \<Rightarrow> (case o_links out of None \<Rightarrow> [] | Some ls \<Rightarrow> ls))))"

text \<open>\<^verbatim>\<open>propagateOutput(node, slotIndex, value)\<close>: the links of the slot, in order.\<close>

definition propagateOutput :: "nat \<Rightarrow> nat \<Rightarrow> jsval \<Rightarrow> state \<Rightarrow> state" where
  "propagateOutput nid slotIndex v s = fold (deliver v) (slot_links s nid slotIndex) s"

section \<open>Configuration resolver\<close>

text \<open>
  One statement pair of \<^verbatim>\<open>getLLMConfig\<close>:
  \<^verbatim>\<open>const xW = sourceNode.widgets?.find(w => w.name === nm); if (xW) config[nm] = xW.value;\<close>
\<close>

definition copy_field ::
  "widget list option \<Rightarrow> string \<Rightarrow> (string \<times> jsval) list \<Rightarrow> (string \<times> jsval) list" where
  "copy_field ws nm config =
     (case find_widget nm ws of None \<Rightarrow> config | Some w \<Rightarrow> AList.update nm (w_value w) config)"

text \<open>
  The statements of \<^verbatim>\<open>getLLMConfig\<close> from \<^verbatim>\<open>const config = {}\<close> to
  \<^verbatim>\<open>return config\<close>, on the widgets of the source node.
\<close>

definition collect_config :: "widget list option \<Rightarrow> (string \<times> jsval) list" where
  "collect_config ws =
     copy_field ws ''hf_token''
       (copy_field ws ''max_new_tokens''
         (copy_field ws ''top_p''
           (copy_field ws ''temperature''
             (copy_field ws ''model_name''
               (copy_field ws ''base_url''
                 (copy_field ws ''provider'' []))))))"

text \<open>
  \<^verbatim>\<open>getLLMConfig(node)\<close>; \<open>None\<close> is the \<^verbatim>\<open>null\<close> it returns. The test
  \<^verbatim>\<open>!input.link\<close> also rejects the link id 0.
\<close>

definition getLLMConfig :: "nat \<Rightarrow> state \<Rightarrow> (string \<times> jsval) list option" where
  "getLLMConfig nid s =
     (case graph_nodes s nid of
        None \<Rightarrow> None
      | Some n \<Rightarrow>
          (case n_inputs n of
             None \<Rightarrow> None
           | Some ins \<Rightarrow>
               (case find (\<lambda>i. i_name i = ''llm_config'') ins of
                  None \<Rightarrow> None
                | Some input \<Rightarrow>
                    (case i_link input of
                       None \<Rightarrow> None
                     | Some linkId \<Rightarrow>
                         if linkId = 0 then None
                         else
                           (case graph_links s linkId of
                              None \<Rightarrow> None
                            | Some l \<Rightarrow>
                                (case graph_nodes s (origin_id l) of
                                   None \<Rightarrow> None
                                 | Some sourceNode \<Rightarrow>
                                     Some (collect_config (n_widgets sourceNode))))))))"

section \<open>Action dispatcher\<close>

text \<open>
  What \<^verbatim>\<open>api.fetchApi\<close> gives \<^verbatim>\<open>postJSON\<close>: a rejection with a message, a response that
  is not ok with its body text, an ok response whose body parses to an object, or an ok
  response whose body does not parse (with the parser's message). An ok body that
  parses to something other than an object is not modelled.
\<close>

datatype fetch_result =
    TransportError string
  | NotOk string
  | OkJson "(string \<times> jsval) list"
  | OkMalformed string

text \<open>What an awaited call does: it throws an error with a message or returns.\<close>

datatype 'a outcome = Threw string | Returned 'a

fun postJSON :: "fetch_result \<Rightarrow> ((string \<times> jsval) list) outcome" where
  "postJSON (TransportError m) = Threw m"
| "postJSON (NotOk body) = Threw body"
| "postJSON (OkJson data) = Returned data"
| "postJSON (OkMalformed m) = Threw m"

definition excludeWidgets :: "string list" where
  "excludeWidgets = [''status'', ''history_preview'', ''assistant_response_preview'',
                     ''auto_clear_input'']"

text \<open>
  The \<^verbatim>\<open>forEach\<close> that fills the payload, then \<^verbatim>\<open>payload["action"] = action\<close>. Widget
  names are taken to be ordinary property names: an assignment under the name
  \<^verbatim>\<open>__proto__\<close>, which adds no property in JavaScript, is not modelled.
\<close>

definition widget_payload :: "widget list option \<Rightarrow> jsval \<Rightarrow> (string \<times> jsval) list" where
  "widget_payload wso action =
     AList.update ''action'' action
       (fold (\<lambda>w payload.
                if w_name w \<in> set excludeWidgets then payload
                else AList.update (w_name w) (w_value w) payload)
          (case wso of None \<Rightarrow> [] | Some ws \<Rightarrow> ws) [])"

text \<open>\<^verbatim>\<open>actionWidget ? actionWidget.value : "send"\<close>\<close>

definition selected_action :: "state \<Rightarrow> nat \<Rightarrow> jsval" where
  "selected_action s nid =
     (case widget_value s nid ''action'' of None \<Rightarrow> JStr ''send'' | Some v \<Rightarrow> v)"

text \<open>\<^verbatim>\<open>node.widgets?.find((w) => w.name === "auto_clear_input")?.value\<close>\<close>

definition autoClear :: "state \<Rightarrow> nat \<Rightarrow> jsval" where
  "autoClear s nid =
     (case widget_value s nid ''auto_clear_input'' of None \<Rightarrow> JUndef | Some v \<Rightarrow> v)"

text \<open>
  \<^verbatim>\<open>sendAction\<close> up to the call of \<^verbatim>\<open>postJSON\<close>: the action read, the status written,
  the payload built. The closure variables \<^verbatim>\<open>statusWidget\<close>, \<^verbatim>\<open>historyStore\<close> and
  \<^verbatim>\<open>responseStore\<close> are the widgets \<^verbatim>\<open>addOrGetWidget\<close> returned at setup: the first
  widgets of their names on the node.
\<close>

definition sendAction_request :: "nat \<Rightarrow> state \<Rightarrow> state \<times> jsval \<times> (string \<times> jsval) list" where
  "sendAction_request nid s =
     (let action = selected_action s nid;
          s1 = setDirtyCanvas nid
                 (write_value nid ''status'' (JStr (''working: '' @ to_str action @ ''...'')) s);
          payload = widget_payload (node_widgets s1 nid) action;
          payload' = (case getLLMConfig nid s1 of
                        None \<Rightarrow> payload
                      | Some llmConfig \<Rightarrow> AList.update ''llm_config'' (JObj llmConfig) payload)
      in (s1, action, payload'))"

text \<open>\<^verbatim>\<open>sendAction\<close> from the result of the awaited \<^verbatim>\<open>postJSON\<close> on.\<close>

definition sendAction_response ::
  "nat \<Rightarrow> jsval \<Rightarrow> ((string \<times> jsval) list) outcome \<Rightarrow> state \<Rightarrow> state" where
  "sendAction_response nid action res s =
     (case res of
        Threw message \<Rightarrow>
          setDirtyCanvas nid (write_value nid ''status'' (JStr (''error: '' @ message)) s)
      | Returned data \<Rightarrow>
          (let s1 = write_value nid ''assistant_response_preview''
                      (or_empty (get_prop data ''assistant_response'')) s;
               s2 = write_value nid ''history_preview''
                      (or_empty (get_prop data ''readable_history'')) s1;
               s3 = propagateOutput nid 0 (or_empty (get_prop data ''assistant_response'')) s2;
               s4 = propagateOutput nid 1 (or_empty (get_prop data ''readable_history'')) s3;
               s5 = (if action = JStr ''send'' \<and> truthy (autoClear s4 nid)
                     then setWidgetValue nid ''user_message'' (JStr []) s4 else s4)
           in setDirtyCanvas nid (write_value nid ''status'' (JStr ''done'') s5)))"

text \<open>
  One dispatch: the request, the backend's answer, the continuation, with no other
  event between the request and the answer.
\<close>

definition sendAction :: "nat \<Rightarrow> fetch_result \<Rightarrow> state \<Rightarrow> state" where
  "sendAction nid fr s =
     (case sendAction_request nid s of
        (s1, action, payload) \<Rightarrow> sendAction_response nid action (postJSON fr) s1)"

text \<open>The payload that dispatch sends.\<close>

definition sendAction_payload :: "nat \<Rightarrow> state \<Rightarrow> (string \<times> jsval) list" where
  "sendAction_payload nid s = snd (snd (sendAction_request nid s))"

section \<open>Node setup\<close>

text \<open>
  The host's \<^verbatim>\<open>node.addWidget(type, name, value, callback, opts)\<close>: a new widget at the
  end of the node's list, with no \<^verbatim>\<open>onChange\<close> and no input element.
\<close>

definition addWidget :: "nat \<Rightarrow> string \<Rightarrow> jsval \<Rightarrow> state \<Rightarrow> state" where
  "addWidget nid nm v s =
     (case graph_nodes s nid of
        None \<Rightarrow> s
      | Some n \<Rightarrow>
          s\<lparr>graph_nodes :=
              (graph_nodes s)(nid \<mapsto>
                 n\<lparr>n_widgets :=
                     Some ((case n_widgets n of None \<Rightarrow> [] | Some ws \<Rightarrow> ws) @
                           [\<lparr>w_name = nm, w_value = v, w_onChange = None,
                             w_inputEl = None\<rparr>])\<rparr>)\<rparr>)"

definition addOrGetWidget :: "nat \<Rightarrow> string \<Rightarrow> jsval \<Rightarrow> state \<Rightarrow> state" where
  "addOrGetWidget nid nm dflt s =
     (case graph_nodes s nid of
        None \<Rightarrow> s
      | Some n \<Rightarrow>
          (let s1 = s\<lparr>graph_nodes :=
                        (graph_nodes s)(nid \<mapsto>
                           n\<lparr>n_widgets :=
                               Some (case n_widgets n of None \<Rightarrow> [] | Some ws \<Rightarrow> ws)\<rparr>)\<rparr>
           in (case widget_at s1 nid nm of
                 Some w \<Rightarrow> s1
               | None \<Rightarrow> addWidget nid nm dflt s1)))"

text \<open>
  \<^verbatim>\<open>setupChatNode\<close>, as far as it touches the widget list: the status widget, the two
  stores and the Execute button. The styling of the status input element and the
  timers of \<^verbatim>\<open>updateWidgetLock\<close>, which only sets \<^verbatim>\<open>disabled\<close>, are left out.
\<close>

definition setupChatNode :: "nat \<Rightarrow> state \<Rightarrow> state" where
  "setupChatNode nid s =
     (let s1 = addOrGetWidget nid ''status'' (JStr ''idle'') s;
          s2 = addOrGetWidget nid ''history_preview'' (JStr []) s1;
          s3 = addOrGetWidget nid ''assistant_response_preview'' (JStr []) s2
      in (case widget_at s3 nid ''Execute'' of
            Some existingButton \<Rightarrow> s3
          | None \<Rightarrow> addWidget nid ''Execute'' JNull s3))"

text \<open>
  \<^verbatim>\<open>setupHistoryViewer\<close>, as far as it touches the widget list and the callback: the
  history widget found or added, the Open History button, the \<^verbatim>\<open>onChange\<close> wrapper
  around the callback that was there. Styling and sizing are left out.
\<close>

definition setupHistoryViewer :: "nat \<Rightarrow> state \<Rightarrow> state" where
  "setupHistoryViewer nid s =
     (let s1 = (case widget_at s nid ''history'' of
                  Some historyWidget \<Rightarrow> s
                | None \<Rightarrow> addWidget nid ''history'' (JStr []) s);
          s2 = (case widget_at s1 nid ''Open History'' of
                  Some existingButton \<Rightarrow> s1
                | None \<Rightarrow> addWidget nid ''Open History'' JNull s1)
      in modify_widget nid ''history''
           (\<lambda>w. w\<lparr>w_onChange := Some (ViewerOnChange (w_onChange w))\<rparr>) s2)"

text \<open>
  \<^verbatim>\<open>getHistoryText\<close> of the viewer:
  \<^verbatim>\<open>historyWidget.value ?? historyWidget.inputEl?.value ?? ""\<close>
\<close>

definition getHistoryText :: "nat \<Rightarrow> state \<Rightarrow> jsval" where
  "getHistoryText nid s =
     (case widget_at s nid ''history'' of
        None \<Rightarrow> JStr []
      | Some w \<Rightarrow>
          if w_value w \<noteq> JUndef \<and> w_value w \<noteq> JNull then w_value w
          else (case w_inputEl w of None \<Rightarrow> JStr [] | Some el \<Rightarrow> JStr el))"

section \<open>User interface events\<close>

text \<open>
  The events that reach the handlers this module installs: the Open History button of
  a viewer node, the Close button, a key press, a click inside the overlay (on the
  overlay itself or on the panel), the Execute button of a chat node together with
  what the backend answers, and a change callback fired on a widget with a value.
\<close>

datatype ui_event =
    ClickOpenHistory nat
  | ClickClose
  | KeyDown string
  | ClickOverlay bool
  | ClickExecute nat fetch_result
  | FireOnChange nat string jsval

fun handle :: "ui_event \<Rightarrow> state \<Rightarrow> state" where
  "handle (ClickOpenHistory nid) s = openHistoryModal (getHistoryText nid s) s"
| "handle ClickClose s = closeHistoryModal s"
| "handle (KeyDown key) s =
     (if 0 < keydown_listeners s \<and> key = ''Escape'' then closeHistoryModal s else s)"
| "handle (ClickOverlay onOverlay) s = (if onOverlay then closeHistoryModal s else s)"
| "handle (ClickExecute nid fr) s = sendAction nid fr s"
| "handle (FireOnChange nid nm v) s =
     (case widget_at s nid nm of None \<Rightarrow> s | Some w \<Rightarrow> notify w nid nm v s)"

definition run :: "ui_event list \<Rightarrow> state \<Rightarrow> state" where
  "run evs s = fold handle evs s"

text \<open>The state when the module is loaded: no modal yet, nothing appended to the body.\<close>

definition module_loaded :: "state \<Rightarrow> bool" where
  "module_loaded s \<longleftrightarrow>
     historyModal s = None \<and> body_children s = [] \<and> keydown_listeners s = 0"

section \<open>Vocabulary of the claims\<close>

subsection \<open>Resolution of links\<close>

text \<open>
  The link reference of the node's input slot named \<^verbatim>\<open>llm_config\<close>: \<open>None\<close> when the
  node has no such slot or the slot is not connected.
\<close>

definition config_link :: "state \<Rightarrow> nat \<Rightarrow> nat option" where
  "config_link s nid =
     (case graph_nodes s nid of
        None \<Rightarrow> None
      | Some n \<Rightarrow>
          (case n_inputs n of
             None \<Rightarrow> None
           | Some ins \<Rightarrow>
               (case find (\<lambda>i. i_name i = ''llm_config'') ins of
                  None \<Rightarrow> None
                | Some input \<Rightarrow> i_link input)))"

text \<open>
  The origin node of the node's configuration input: the input slot named
  \<^verbatim>\<open>llm_config\<close>, its link, the link record, the node with the link's origin id.
  \<open>None\<close> when the slot is absent or unconnected or the link or the origin node is
  not in the graph.
\<close>

definition config_origin :: "state \<Rightarrow> nat \<Rightarrow> node option" where
  "config_origin s nid =
     (case graph_nodes s nid of
        None \<Rightarrow> None
      | Some n \<Rightarrow>
          (case n_inputs n of
             None \<Rightarrow> None
           | Some ins \<Rightarrow>
               (case find (\<lambda>i. i_name i = ''llm_config'') ins of
                  None \<Rightarrow> None
                | Some input \<Rightarrow>
                    (case i_link input of
                       None \<Rightarrow> None
                     | Some linkId \<Rightarrow>
                         (case graph_links s linkId of
                            None \<Rightarrow> None
                          | Some l \<Rightarrow> graph_nodes s (origin_id l))))))"

text \<open>
  The consumer a link leads to: the target node and the widget name its target input
  is bound to, when the link record, the target node, the input slot, the widget
  binding and a widget of that name on the target node all exist. This is the chain of
  tests that \<^verbatim>\<open>propagateOutput\<close> makes for one link id.
\<close>

definition consumer :: "state \<Rightarrow> nat \<Rightarrow> (nat \<times> string) option" where
  "consumer s linkId =
     (case graph_links s linkId of
        None \<Rightarrow> None
      | Some l \<Rightarrow>
          (case graph_nodes s (target_id l) of
             None \<Rightarrow> None
           | Some targetNode \<Rightarrow>
               (case n_inputs targetNode of
                  None \<Rightarrow> None
                | Some ins \<Rightarrow>
                    (case nth_opt ins (target_slot l) of
                       None \<Rightarrow> None
                     | Some inp \<Rightarrow>
                         (case i_widget inp of
                            None \<Rightarrow> None
                          | Some widgetName \<Rightarrow>
                              (case find_widget widgetName (n_widgets targetNode) of
                                 None \<Rightarrow> None
                               | Some w \<Rightarrow> Some (target_id l, widgetName)))))))"

text \<open>
  The resolvable consumers of an output slot, in the order of its links.
\<close>

definition consumers :: "state \<Rightarrow> nat \<Rightarrow> nat \<Rightarrow> (nat \<times> string) list" where
  "consumers s nid slotIndex = List.map_filter (consumer s) (slot_links s nid slotIndex)"

subsection \<open>What a write leaves alone\<close>

text \<open>
  A widget without its value and without the text of its input element: what no
  operation of the module changes.
\<close>

definition widget_frame :: "widget \<Rightarrow> widget" where
  "widget_frame w = w\<lparr>w_value := JUndef, w_inputEl := map_option (\<lambda>el. []) (w_inputEl w)\<rparr>"

text \<open>
  A node with its widgets reduced to their frames: its inputs, its outputs, and the
  names, callbacks and input elements of its widgets.
\<close>

definition node_frame :: "node \<Rightarrow> node" where
  "node_frame n = n\<lparr>n_widgets := map_option (map widget_frame) (n_widgets n)\<rparr>"

text \<open>
  The graph without widget values and input texts: the frames of its nodes and its
  link table.
\<close>

definition skeleton :: "state \<Rightarrow> (nat \<Rightarrow> node option) \<times> (nat \<Rightarrow> link option)" where
  "skeleton s = (\<lambda>k. map_option node_frame (graph_nodes s k), graph_links s)"

text \<open>
  Which modal there is: the overlay element of \<^verbatim>\<open>historyModal\<close>, the children appended
  to the body and the number of key listeners.
\<close>

definition modal_identity :: "state \<Rightarrow> nat option \<times> nat list \<times> nat" where
  "modal_identity s =
     (map_option overlay_elem (historyModal s), body_children s, keydown_listeners s)"

text \<open>
  At most one modal: either none has been created, nothing is appended to the body and
  no key listener is attached, or there is one, its overlay is the only child appended
  and one key listener is attached.
\<close>

definition single_modal :: "state \<Rightarrow> bool" where
  "single_modal s \<longleftrightarrow>
     (case historyModal s of
        None \<Rightarrow> body_children s = [] \<and> keydown_listeners s = 0
      | Some m \<Rightarrow> body_children s = [overlay_elem m] \<and> keydown_listeners s = 1)"

text \<open>
  What \<^verbatim>\<open>setupChatNode\<close> leaves behind: the node has the status widget and the two
  stores that the closure of \<^verbatim>\<open>sendAction\<close> refers to.
\<close>

definition chat_ready :: "state \<Rightarrow> nat \<Rightarrow> bool" where
  "chat_ready s nid \<longleftrightarrow>
     widget_at s nid ''status'' \<noteq> None \<and>
     widget_at s nid ''history_preview'' \<noteq> None \<and>
     widget_at s nid ''assistant_response_preview'' \<noteq> None"

subsection \<open>Traces and timers\<close>

text \<open>The events that a step from \<open>s\<close> to \<open>s'\<close> added to the trace.\<close>

definition new_events :: "state \<Rightarrow> state \<Rightarrow> event list" where
  "new_events s s' = drop (length (trace s)) (trace s')"

text \<open>The timers that a step from \<open>s\<close> to \<open>s'\<close> scheduled.\<close>

definition new_timers :: "state \<Rightarrow> state \<Rightarrow> timer list" where
  "new_timers s s' = drop (length (timers s)) (timers s')"

text \<open>The trace holds an assignment of \<open>v\<close> to the value of widget \<open>nm\<close> of node \<open>k\<close>.\<close>

definition delivered :: "event list \<Rightarrow> nat \<Rightarrow> string \<Rightarrow> jsval \<Rightarrow> bool" where
  "delivered es k nm v \<longleftrightarrow> EvWrite k nm v True \<in> set es \<or> EvWrite k nm v False \<in> set es"

text \<open>How many change callbacks one call of a callback runs, itself included.\<close>

fun calls :: "callback \<Rightarrow> nat" where
  "calls (HostCallback k) = 1"
| "calls (ViewerOnChange None) = 1"
| "calls (ViewerOnChange (Some c)) = Suc (calls c)"

text \<open>
  Every assignment in the trace to the value of a widget that had a change callback is
  directly followed by a call of the callback of that widget.
\<close>

fun writes_notified :: "event list \<Rightarrow> bool" where
  "writes_notified [] = True"
| "writes_notified (EvWrite n w v cb # es) =
     ((cb \<longrightarrow> (case es of EvCallback n' w' v' # es' \<Rightarrow> n' = n \<and> w' = w | _ \<Rightarrow> False)) \<and>
      writes_notified es)"
| "writes_notified (EvCallback n w v # es) = writes_notified es"
| "writes_notified (EvDirty n # es) = writes_notified es"

text \<open>
  The run of events begins with the call of a callback.
\<close>

fun starts_with_callback :: "event list \<Rightarrow> bool" where
  "starts_with_callback (EvCallback n w v # es) = True"
| "starts_with_callback es = False"

text \<open>
  A run of events in which every assignment is notified and that does not begin with
  the call of a callback (which would belong to an assignment before the run).
\<close>

definition notified_run :: "event list \<Rightarrow> bool" where
  "notified_run es \<longleftrightarrow> writes_notified es \<and> \<not> starts_with_callback es"

section \<open>Example graphs\<close>

text \<open>
  A widget with no change callback and no input element.
\<close>

definition plain_widget :: "string \<Rightarrow> jsval \<Rightarrow> widget" where
  "plain_widget nm v = \<lparr>w_name = nm, w_value = v, w_onChange = None, w_inputEl = None\<rparr>"

text \<open>
  No nodes, no links, the module just loaded.
\<close>

definition empty_state :: state where
  "empty_state = \<lparr>graph_nodes = Map.empty, graph_links = Map.empty, historyModal = None,
                   body_children = [], keydown_listeners = 0, timers = [], trace = []\<rparr>"

text \<open>
  The widgets of a chat node after setup, with the action \<^verbatim>\<open>send\<close> selected and
  auto-clear switched on.
\<close>

definition chat_widgets :: "widget list" where
  "chat_widgets =
     [plain_widget ''model_name'' (JStr ''llama3''),
      plain_widget ''user_message'' (JStr ''hello''),
      plain_widget ''action'' (JStr ''send''),
      plain_widget ''auto_clear_input'' (JBool True),
      plain_widget ''status'' (JStr ''idle''),
      plain_widget ''history_preview'' (JStr []),
      plain_widget ''assistant_response_preview'' (JStr [])]"

text \<open>
  The chat node 1 with an \<^verbatim>\<open>llm_config\<close> input that holds the link reference \<open>lnk\<close>,
  and the node 2 with the given widgets, which link 5 names as its origin.
\<close>

definition config_state :: "nat option \<Rightarrow> widget list \<Rightarrow> state" where
  "config_state lnk source_widgets =
     empty_state
       \<lparr>graph_nodes :=
          [1 \<mapsto> \<lparr>n_widgets = Some chat_widgets,
                   n_inputs = Some [\<lparr>i_name = ''llm_config'', i_link = lnk, i_widget = None\<rparr>],
                   n_outputs = Some [\<lparr>o_links = None\<rparr>, \<lparr>o_links = None\<rparr>]\<rparr>,
           2 \<mapsto> \<lparr>n_widgets = Some source_widgets, n_inputs = None,
                   n_outputs = Some [\<lparr>o_links = Some [5]\<rparr>]\<rparr>],
        graph_links := [5 \<mapsto> \<lparr>origin_id = 2, target_id = 1, target_slot = 0\<rparr>]\<rparr>"

text \<open>
  A graph for the examples: the chat node 2 sends output slot 0 over the links 12, 99
  and 11 and output slot 1 over link 13. Link 12 leads to node 4, whose input is bound
  to a widget name that node 4 does not have; link 99 is not in the link table; link 11
  leads to the \<^verbatim>\<open>text\<close> widget of node 3; link 13 leads to the \<^verbatim>\<open>history\<close> widget of the
  viewer node 5, which carries the viewer's callback and an input element.
\<close>

definition demo_state :: state where
  "demo_state =
     empty_state
       \<lparr>graph_nodes :=
          [2 \<mapsto> \<lparr>n_widgets = Some chat_widgets,
                   n_inputs = Some [\<lparr>i_name = ''llm_config'', i_link = None, i_widget = None\<rparr>],
                   n_outputs = Some [\<lparr>o_links = Some [12, 99, 11]\<rparr>, \<lparr>o_links = Some [13]\<rparr>]\<rparr>,
           3 \<mapsto> \<lparr>n_widgets = Some [plain_widget ''text'' (JStr ''old'')],
                   n_inputs = Some [\<lparr>i_name = ''text'', i_link = Some 11, i_widget = Some ''text''\<rparr>],
                   n_outputs = None\<rparr>,
           4 \<mapsto> \<lparr>n_widgets = Some [plain_widget ''prompt2'' (JStr ''keep'')],
                   n_inputs = Some [\<lparr>i_name = ''prompt'', i_link = Some 12, i_widget = Some ''prompt''\<rparr>],
                   n_outputs = None\<rparr>,
           5 \<mapsto> \<lparr>n_widgets = Some [\<lparr>w_name = ''history'', w_value = JStr [],
                                       w_onChange = Some (ViewerOnChange None),
                                       w_inputEl = Some []\<rparr>],
                   n_inputs = Some [\<lparr>i_name = ''history'', i_link = Some 13,
                                     i_widget = Some ''history''\<rparr>],
                   n_outputs = None\<rparr>],
        graph_links :=
          [11 \<mapsto> \<lparr>origin_id = 2, target_id = 3, target_slot = 0\<rparr>,
           12 \<mapsto> \<lparr>origin_id = 2, target_id = 4, target_slot = 0\<rparr>,
           13 \<mapsto> \<lparr>origin_id = 2, target_id = 5, target_slot = 0\<rparr>]\<rparr>"

text \<open>
  A graph with a loop: output slot 0 of node 2 is linked, by link 7, to the input of
  node 2 itself that is bound to its \<^verbatim>\<open>user_message\<close> widget.
\<close>

definition loop_state :: state where
  "loop_state =
     empty_state
       \<lparr>graph_nodes :=
          [2 \<mapsto> \<lparr>n_widgets = Some chat_widgets,
                   n_inputs = Some [\<lparr>i_name = ''user_message'', i_link = Some 7,
                                     i_widget = Some ''user_message''\<rparr>],
                   n_outputs = Some [\<lparr>o_links = Some [7]\<rparr>, \<lparr>o_links = None\<rparr>]\<rparr>],
        graph_links := [7 \<mapsto> \<lparr>origin_id = 2, target_id = 2, target_slot = 0\<rparr>]\<rparr>"

text \<open>
  A graph with a loop to a store: output slot 0 of node 2 is linked, by link 7, to an
  input of node 2 itself that is bound to its \<^verbatim>\<open>history_preview\<close> widget.
\<close>

definition loop_store_state :: state where
  "loop_store_state =
     empty_state
       \<lparr>graph_nodes :=
          [2 \<mapsto> \<lparr>n_widgets = Some chat_widgets,
                   n_inputs = Some [\<lparr>i_name = ''history_preview'', i_link = Some 7,
                                     i_widget = Some ''history_preview''\<rparr>],
                   n_outputs = Some [\<lparr>o_links = Some [7]\<rparr>, \<lparr>o_links = None\<rparr>]\<rparr>],
        graph_links := [7 \<mapsto> \<lparr>origin_id = 2, target_id = 2, target_slot = 0\<rparr>]\<rparr>"

text \<open>A chat node whose status widget has a change callback of the host.\<close>

definition watched_status_state :: state where
  "watched_status_state =
     empty_state
       \<lparr>graph_nodes :=
          [2 \<mapsto> \<lparr>n_widgets =
                     Some [plain_widget ''action'' (JStr ''send''),
                           \<lparr>w_name = ''status'', w_value = JStr ''idle'',
                             w_onChange = Some (HostCallback 0), w_inputEl = None\<rparr>,
                           plain_widget ''history_preview'' (JStr []),
                           plain_widget ''assistant_response_preview'' (JStr [])],
                   n_inputs = None, n_outputs = None\<rparr>]\<rparr>"

text \<open>
  The example graph with the text \<^verbatim>\<open>A B C\<close> in the history widget of the viewer node
  5, after a click on its Open History button.
\<close>

definition demo_open_state :: state where
  "demo_open_state = handle (ClickOpenHistory 5) (demo_state
      \<lparr>graph_nodes := (graph_nodes demo_state)(5 \<mapsto>
          \<lparr>n_widgets = Some [\<lparr>w_name = ''history'', w_value = JStr ''A B C'',
                              w_onChange = Some (ViewerOnChange None),
                              w_inputEl = Some ''A B C''\<rparr>],
            n_inputs = Some [\<lparr>i_name = ''history'', i_link = Some 13,
                              i_widget = Some ''history''\<rparr>],
            n_outputs = None\<rparr>)\<rparr>)"

section \<open>Properties\<close>

lemma getLLMConfig_None: "config_origin s nid = None \<Longrightarrow> getLLMConfig nid s = None"
  by (auto simp: config_origin_def getLLMConfig_def split: option.splits)

lemma find_upd_first:
  "(\<And>w. w_name (f w) = w_name w) \<Longrightarrow>
   find (\<lambda>w. w_name w = nm') (upd_first nm f ws) =
     (if nm' = nm then map_option f (find (\<lambda>w. w_name w = nm) ws)
      else find (\<lambda>w. w_name w = nm') ws)"
  by (induction ws) auto

lemma find_widget_upd_first:
  "(\<And>w. w_name (f w) = w_name w) \<Longrightarrow>
   find_widget nm' (map_option (upd_first nm f) wso) =
     (if nm' = nm then map_option f (find_widget nm wso) else find_widget nm' wso)"
  by (cases wso) (simp_all add: find_widget_def find_upd_first)

lemma map_of_fold_payload:
  "k \<notin> w_name ` set ws \<Longrightarrow>
   map_of (fold (\<lambda>w payload. if w_name w \<in> set excludeWidgets then payload
                else AList.update (w_name w) (w_value w) payload) ws acc) k = map_of acc k"
  by (induction ws arbitrary: acc) (auto simp: AList.update_conv')

lemma find_None_names: "find (\<lambda>w. w_name w = k) ws = None \<longleftrightarrow> k \<notin> w_name ` set ws"
  by (induction ws) auto

lemma widget_payload_absent:
  "find_widget k wso = None \<Longrightarrow> k \<noteq> ''action'' \<Longrightarrow> map_of (widget_payload wso a) k = None"
  by (cases wso) (simp_all add: widget_payload_def find_widget_def AList.update_conv' map_of_fold_payload find_None_names)

lemma graph_nodes_modify:
  "graph_nodes (modify_widget nid nm f s) k =
     (if k = nid
      then map_option (\<lambda>n. n\<lparr>n_widgets := map_option (upd_first nm f) (n_widgets n)\<rparr>) (graph_nodes s nid)
      else graph_nodes s k)"
  by (simp add: modify_widget_def split: option.splits)

lemma graph_links_modify [simp]: "graph_links (modify_widget nid nm f s) = graph_links s"
  by (simp add: modify_widget_def split: option.splits)

lemma node_widgets_modify:
  "node_widgets (modify_widget nid nm f s) k =
     (if k = nid then map_option (upd_first nm f) (node_widgets s nid) else node_widgets s k)"
  by (auto simp: node_widgets_def graph_nodes_modify split: option.splits)

lemma widget_at_modify:
  "(\<And>w. w_name (f w) = w_name w) \<Longrightarrow>
   widget_at (modify_widget nid nm f s) k nm' =
     (if k = nid \<and> nm' = nm then map_option f (widget_at s nid nm) else widget_at s k nm')"
  by (simp add: widget_at_def node_widgets_modify find_widget_upd_first)

lemma collect_config_modify:
  assumes "\<And>w. w_name (f w) = w_name w"
    and "nm \<notin> {''provider'', ''base_url'', ''model_name'', ''temperature'', ''top_p'',
                 ''max_new_tokens'', ''hf_token''}"
  shows "collect_config (map_option (upd_first nm f) wso) = collect_config wso"
proof -
  have cf: "\<And>nm' c. nm \<noteq> nm' \<Longrightarrow>
        copy_field (map_option (upd_first nm f) wso) nm' c = copy_field wso nm' c"
    using assms(1) by (auto simp: copy_field_def find_widget_upd_first)
  from assms(2) show ?thesis
    unfolding collect_config_def by (simp add: cf)
qed

lemma getLLMConfig_modify:
  assumes "\<And>w. w_name (f w) = w_name w"
    and "nm \<notin> {''provider'', ''base_url'', ''model_name'', ''temperature'', ''top_p'',
                 ''max_new_tokens'', ''hf_token''}"
  shows "getLLMConfig nid (modify_widget k nm f s) = getLLMConfig nid s"
  using assms(2)
  by (auto simp: getLLMConfig_def graph_nodes_modify collect_config_modify[OF assms(1)]
      split: option.splits)

lemma getLLMConfig_trace [simp]: "getLLMConfig nid (trace_update ft s) = getLLMConfig nid s"
  by (simp add: getLLMConfig_def cong: option.case_cong if_cong)

lemma getLLMConfig_status:
  "getLLMConfig nid (setDirtyCanvas k (write_value k ''status'' v s)) = getLLMConfig nid s"
  by (simp add: setDirtyCanvas_def write_value_def getLLMConfig_modify)

lemma node_widgets_upd [simp]:
  "node_widgets (trace_update ft s) = node_widgets s"
  "node_widgets (timers_update fm s) = node_widgets s"
  "node_widgets (historyModal_update fh s) = node_widgets s"
  "node_widgets (body_children_update fb s) = node_widgets s"
  "node_widgets (keydown_listeners_update fk s) = node_widgets s"
  by (simp_all add: node_widgets_def fun_eq_iff)

lemma widget_at_upd [simp]:
  "widget_at (trace_update ft s) = widget_at s"
  "widget_at (timers_update fm s) = widget_at s"
  "widget_at (historyModal_update fh s) = widget_at s"
  "widget_at (body_children_update fb s) = widget_at s"
  "widget_at (keydown_listeners_update fk s) = widget_at s"
  by (simp_all add: widget_at_def fun_eq_iff)

lemma node_widgets_dirty [simp]: "node_widgets (setDirtyCanvas k s) = node_widgets s"
  by (simp add: setDirtyCanvas_def)

lemma widget_at_write:
  "widget_at (write_value nid nm v s) k nm' =
     (if k = nid \<and> nm' = nm then map_option (\<lambda>w. w\<lparr>w_value := v\<rparr>) (widget_at s nid nm)
      else widget_at s k nm')"
  by (simp add: write_value_def widget_at_modify)

lemma widget_at_dirty [simp]: "widget_at (setDirtyCanvas k s) = widget_at s"
  by (simp add: setDirtyCanvas_def)

lemma payload_llm_config:
  assumes "widget_at s nid ''llm_config'' = None"
  shows "map_of (sendAction_payload nid s) ''llm_config'' = map_option JObj (getLLMConfig nid s)"
proof -
  have "find_widget ''llm_config'' (node_widgets (setDirtyCanvas nid (write_value nid ''status'' v s)) nid) = None" for v
    using assms widget_at_write[of nid "''status''" v s nid "''llm_config''"]
    by (simp add: widget_at_def)
  then show ?thesis
    by (simp add: sendAction_payload_def sendAction_request_def Let_def getLLMConfig_status
        widget_payload_absent AList.update_conv' split: option.splits)
qed

lemma collect_config_none:
  assumes "find_widget ''provider'' ws = None" "find_widget ''base_url'' ws = None"
    "find_widget ''model_name'' ws = None" "find_widget ''temperature'' ws = None"
    "find_widget ''top_p'' ws = None" "find_widget ''max_new_tokens'' ws = None"
    "find_widget ''hf_token'' ws = None"
  shows "collect_config ws = []"
  using assms by (simp add: collect_config_def copy_field_def)

lemma collect_config_two:
  assumes "find_widget ''provider'' ws = Some wp" "find_widget ''base_url'' ws = None"
    "find_widget ''model_name'' ws = Some wm" "find_widget ''temperature'' ws = None"
    "find_widget ''top_p'' ws = None" "find_widget ''max_new_tokens'' ws = None"
    "find_widget ''hf_token'' ws = None"
  shows "collect_config ws = [(''provider'', w_value wp), (''model_name'', w_value wm)]"
  using assms by (simp add: collect_config_def copy_field_def)

lemma getLLMConfig_resolved:
  "config_origin s nid = Some src \<Longrightarrow> config_link s nid \<noteq> Some 0 \<Longrightarrow>
   getLLMConfig nid s = Some (collect_config (n_widgets src))"
  by (auto simp: config_origin_def config_link_def getLLMConfig_def split: option.splits)

lemma payload_llm_config_Some:
  "getLLMConfig nid s = Some c \<Longrightarrow> map_of (sendAction_payload nid s) ''llm_config'' = Some (JObj c)"
  by (simp add: sendAction_payload_def sendAction_request_def Let_def getLLMConfig_status
        AList.update_conv')

lemma collect_config_keys:
  "fst ` set (collect_config ws) \<subseteq> {''provider'', ''base_url'', ''model_name'', ''temperature'', ''top_p'',
                 ''max_new_tokens'', ''hf_token''}"
  by (auto simp: collect_config_def copy_field_def AList.dom_update split: option.splits)

subsection \<open>skeleton\<close>

lemma skeleton_upd [simp]:
  "skeleton (trace_update ft s) = skeleton s"
  "skeleton (timers_update fm s) = skeleton s"
  "skeleton (historyModal_update fh s) = skeleton s"
  "skeleton (body_children_update fb s) = skeleton s"
  "skeleton (keydown_listeners_update fk s) = skeleton s"
  by (simp_all add: skeleton_def)

lemma map_frame_upd_first:
  "(\<And>w. widget_frame (f w) = widget_frame w) \<Longrightarrow>
   map widget_frame (upd_first nm f ws) = map widget_frame ws"
  by (induction ws) auto

lemma skeleton_modify:
  assumes "\<And>w. widget_frame (f w) = widget_frame w"
  shows "skeleton (modify_widget nid nm f s) = skeleton s"
proof -
  have "map_option node_frame (graph_nodes (modify_widget nid nm f s) k) =
        map_option node_frame (graph_nodes s k)" for k
    by (cases "graph_nodes s nid"; cases "k = nid")
       (auto simp: graph_nodes_modify node_frame_def map_frame_upd_first[OF assms]
          option.map_comp comp_def cong: option.map_cong)
  then show ?thesis by (simp add: skeleton_def)
qed

lemma skeleton_write [simp]: "skeleton (write_value nid nm v s) = skeleton s"
  by (simp add: write_value_def skeleton_modify widget_frame_def)

lemma skeleton_dirty [simp]: "skeleton (setDirtyCanvas nid s) = skeleton s"
  by (simp add: setDirtyCanvas_def)

lemma skeleton_ensure [simp]: "skeleton (ensureHistoryModal s) = skeleton s"
  by (simp add: ensureHistoryModal_def split: option.splits)

lemma skeleton_open [simp]: "skeleton (openHistoryModal t s) = skeleton s"
  by (simp add: openHistoryModal_def Let_def)

lemma skeleton_close [simp]: "skeleton (closeHistoryModal s) = skeleton s"
  by (simp add: closeHistoryModal_def split: option.splits)

lemma frame_mirror_input [simp]: "widget_frame (mirror_input v w) = widget_frame w"
  by (simp add: mirror_input_def widget_frame_def split: option.splits)

lemma skeleton_viewer_sync [simp]: "skeleton (viewer_sync nid nm v s) = skeleton s"
  by (simp add: viewer_sync_def Let_def skeleton_modify)

lemma skeleton_invoke [simp]: "skeleton (invoke c nid nm v s) = skeleton s"
  by (induction c nid nm v s rule: invoke.induct) simp_all

lemma skeleton_notify [simp]: "skeleton (notify w nid nm v s) = skeleton s"
  by (simp add: notify_def split: option.splits)

lemma skeleton_setWidgetValue [simp]: "skeleton (setWidgetValue nid nm v s) = skeleton s"
  by (simp add: setWidgetValue_def split: option.splits)

lemma skeleton_deliver [simp]: "skeleton (deliver v l s) = skeleton s"
  by (simp add: deliver_def split: option.splits)

lemma skeleton_fold_deliver [simp]: "skeleton (fold (deliver v) ls s) = skeleton s"
  by (induction ls arbitrary: s) simp_all

lemma skeleton_propagateOutput [simp]: "skeleton (propagateOutput nid slot v s) = skeleton s"
  by (simp add: propagateOutput_def)

subsection \<open>what the skeleton determines\<close>

lemma skeleton_links: "skeleton s' = skeleton s \<Longrightarrow> graph_links s' = graph_links s"
  by (simp add: skeleton_def)

lemma skeleton_node:
  "skeleton s' = skeleton s \<Longrightarrow>
   map_option node_frame (graph_nodes s' k) = map_option node_frame (graph_nodes s k)"
  by (simp add: skeleton_def fun_eq_iff)

lemma find_frame:
  "map widget_frame ws' = map widget_frame ws \<Longrightarrow>
   map_option widget_frame (find (\<lambda>w. w_name w = nm) ws') =
   map_option widget_frame (find (\<lambda>w. w_name w = nm) ws)"
proof (induction ws arbitrary: ws')
  case Nil
  then show ?case by simp
next
  case (Cons w ws)
  then obtain w' ws'' where ws': "ws' = w' # ws''" by (cases ws') auto
  with Cons.prems have fw: "widget_frame w' = widget_frame w"
    and rest: "map widget_frame ws'' = map widget_frame ws" by auto
  have "w_name (widget_frame w') = w_name (widget_frame w)" by (simp only: fw)
  then have "w_name w' = w_name w" by (simp add: widget_frame_def)
  with Cons.IH[OF rest] fw ws' show ?case by simp
qed

lemma frame_name:
  assumes "widget_frame w' = widget_frame w"
  shows "w_name w' = w_name w"
proof -
  have "w_name (widget_frame w') = w_name (widget_frame w)" by (simp only: assms)
  then show ?thesis by (simp add: widget_frame_def)
qed

lemma frame_onChange:
  assumes "widget_frame w' = widget_frame w"
  shows "w_onChange w' = w_onChange w"
proof -
  have "w_onChange (widget_frame w') = w_onChange (widget_frame w)" by (simp only: assms)
  then show ?thesis by (simp add: widget_frame_def)
qed

lemma node_frame_inputs:
  assumes "node_frame n' = node_frame n"
  shows "n_inputs n' = n_inputs n"
proof -
  have "n_inputs (node_frame n') = n_inputs (node_frame n)" by (simp only: assms)
  then show ?thesis by (simp add: node_frame_def)
qed

lemma node_frame_outputs:
  assumes "node_frame n' = node_frame n"
  shows "n_outputs n' = n_outputs n"
proof -
  have "n_outputs (node_frame n') = n_outputs (node_frame n)" by (simp only: assms)
  then show ?thesis by (simp add: node_frame_def)
qed

lemma node_frame_widgets:
  assumes "node_frame n' = node_frame n"
  shows "map_option (map widget_frame) (n_widgets n') = map_option (map widget_frame) (n_widgets n)"
proof -
  have "n_widgets (node_frame n') = n_widgets (node_frame n)" by (simp only: assms)
  then show ?thesis by (simp add: node_frame_def)
qed

lemma find_widget_frame:
  assumes "map_option (map widget_frame) wso' = map_option (map widget_frame) wso"
  shows "map_option widget_frame (find_widget nm wso') = map_option widget_frame (find_widget nm wso)"
proof (cases wso)
  case None
  with assms show ?thesis by (simp add: find_widget_def)
next
  case (Some ws)
  with assms obtain ws' where "wso' = Some ws'" and "map widget_frame ws' = map widget_frame ws"
    by (cases wso') simp_all
  with Some find_frame[of ws' ws nm] show ?thesis by (simp add: find_widget_def)
qed

lemma skeleton_node_cases:
  assumes "skeleton s' = skeleton s"
  shows "(graph_nodes s' k = None \<and> graph_nodes s k = None) \<or>
         (\<exists>n' n. graph_nodes s' k = Some n' \<and> graph_nodes s k = Some n \<and>
                  node_frame n' = node_frame n)"
proof (cases "graph_nodes s' k")
  case None
  with skeleton_node[OF assms, of k] show ?thesis by simp
next
  case (Some n')
  with skeleton_node[OF assms, of k] obtain n where "graph_nodes s k = Some n"
    and "node_frame n' = node_frame n"
    by (cases "graph_nodes s k") simp_all
  with Some show ?thesis by blast
qed

lemma skeleton_node_widgets:
  assumes "skeleton s' = skeleton s"
  shows "map_option (map widget_frame) (node_widgets s' k) =
         map_option (map widget_frame) (node_widgets s k)"
  using skeleton_node_cases[OF assms, of k]
proof (elim disjE exE conjE)
  assume "graph_nodes s' k = None" "graph_nodes s k = None"
  then show ?thesis by (simp add: node_widgets_def)
next
  fix n' n
  assume "graph_nodes s' k = Some n'" "graph_nodes s k = Some n" "node_frame n' = node_frame n"
  with node_frame_widgets[of n' n] show ?thesis by (simp add: node_widgets_def)
qed

lemma skeleton_widget_at:
  assumes "skeleton s' = skeleton s"
  shows "map_option widget_frame (widget_at s' k nm) = map_option widget_frame (widget_at s k nm)"
  unfolding widget_at_def using skeleton_node_widgets[OF assms] by (rule find_widget_frame)

lemma skeleton_slot_links:
  assumes "skeleton s' = skeleton s"
  shows "slot_links s' nid slot = slot_links s nid slot"
  using skeleton_node_cases[OF assms, of nid]
proof (elim disjE exE conjE)
  assume "graph_nodes s' nid = None" "graph_nodes s nid = None"
  then show ?thesis by (simp add: slot_links_def)
next
  fix n' n
  assume "graph_nodes s' nid = Some n'" "graph_nodes s nid = Some n" "node_frame n' = node_frame n"
  with node_frame_outputs[of n' n] show ?thesis by (simp add: slot_links_def)
qed

lemma skeleton_consumer:
  assumes "skeleton s' = skeleton s"
  shows "consumer s' l = consumer s l"
proof (cases "graph_links s l")
  case None
  then show ?thesis using skeleton_links[OF assms] by (simp add: consumer_def)
next
  case (Some lk)
  have gl: "graph_links s' l = Some lk" using Some skeleton_links[OF assms] by simp
  from skeleton_node_cases[OF assms, of "target_id lk"]
  show ?thesis
  proof (elim disjE exE conjE)
    assume "graph_nodes s' (target_id lk) = None" "graph_nodes s (target_id lk) = None"
    then show ?thesis using Some gl by (simp add: consumer_def)
  next
    fix n' n
    assume n: "graph_nodes s' (target_id lk) = Some n'" "graph_nodes s (target_id lk) = Some n"
      and f: "node_frame n' = node_frame n"
    have i: "n_inputs n' = n_inputs n" using f by (rule node_frame_inputs)
    have "(find_widget nm (n_widgets n') = None) = (find_widget nm (n_widgets n) = None)" for nm
      using find_widget_frame[OF node_frame_widgets[OF f], of nm]
      by (cases "find_widget nm (n_widgets n')"; cases "find_widget nm (n_widgets n)") simp_all
    then show ?thesis using Some gl n i
      by (simp add: consumer_def option.case_eq_if cong: option.case_cong)
  qed
qed

lemma skeleton_consumers:
  assumes "skeleton s' = skeleton s"
  shows "consumers s' nid slot = consumers s nid slot"
proof -
  have "consumer s' = consumer s"
    using skeleton_consumer[OF assms] by (simp add: fun_eq_iff)
  then show ?thesis
    by (simp add: consumers_def skeleton_slot_links[OF assms])
qed

subsection \<open>deliver through consumer\<close>

lemma deliver_unresolved: "consumer s l = None \<Longrightarrow> deliver v l s = s"
  by (auto simp: consumer_def deliver_def split: option.splits)

lemma consumer_widget:
  "consumer s l = Some (t, wn) \<Longrightarrow> \<exists>w. widget_at s t wn = Some w"
  by (auto simp: consumer_def widget_at_def node_widgets_def split: option.splits)

lemma deliver_resolved:
  "consumer s l = Some (t, wn) \<Longrightarrow> widget_at s t wn = Some w \<Longrightarrow>
   deliver v l s = setDirtyCanvas t (notify w t wn v (write_value t wn v s))"
  by (auto simp: consumer_def deliver_def widget_at_def node_widgets_def split: option.splits)

subsection \<open>nodes other than the one written\<close>

lemma graph_nodes_upd [simp]:
  "graph_nodes (trace_update ft s) = graph_nodes s"
  "graph_nodes (timers_update fm s) = graph_nodes s"
  "graph_nodes (historyModal_update fh s) = graph_nodes s"
  "graph_nodes (body_children_update fb s) = graph_nodes s"
  "graph_nodes (keydown_listeners_update fk s) = graph_nodes s"
  by simp_all

lemma graph_nodes_dirty [simp]: "graph_nodes (setDirtyCanvas k s) = graph_nodes s"
  by (simp add: setDirtyCanvas_def)

lemma graph_nodes_ensure [simp]: "graph_nodes (ensureHistoryModal s) = graph_nodes s"
  by (simp add: ensureHistoryModal_def split: option.splits)

lemma graph_nodes_open [simp]: "graph_nodes (openHistoryModal t s) = graph_nodes s"
  by (simp add: openHistoryModal_def Let_def)

lemma graph_nodes_close [simp]: "graph_nodes (closeHistoryModal s) = graph_nodes s"
  by (simp add: closeHistoryModal_def split: option.splits)

lemma graph_nodes_write_other:
  "k \<noteq> nid \<Longrightarrow> graph_nodes (write_value nid nm v s) k = graph_nodes s k"
  by (simp add: write_value_def graph_nodes_modify)

lemma graph_nodes_viewer_sync_other:
  "k \<noteq> nid \<Longrightarrow> graph_nodes (viewer_sync nid nm v s) k = graph_nodes s k"
  by (simp add: viewer_sync_def Let_def graph_nodes_modify)

lemma graph_nodes_invoke_other:
  "k \<noteq> nid \<Longrightarrow> graph_nodes (invoke c nid nm v s) k = graph_nodes s k"
  by (induction c nid nm v s rule: invoke.induct) (simp_all add: graph_nodes_viewer_sync_other)

lemma graph_nodes_notify_other:
  "k \<noteq> nid \<Longrightarrow> graph_nodes (notify w nid nm v s) k = graph_nodes s k"
  by (simp add: notify_def graph_nodes_invoke_other split: option.splits)

lemma graph_nodes_setWidgetValue_other:
  "k \<noteq> nid \<Longrightarrow> graph_nodes (setWidgetValue nid nm v s) k = graph_nodes s k"
  by (simp add: setWidgetValue_def graph_nodes_notify_other graph_nodes_write_other
      split: option.splits)

lemma graph_nodes_deliver_other:
  assumes "\<And>wn. consumer s l \<noteq> Some (k, wn)"
  shows "graph_nodes (deliver v l s) k = graph_nodes s k"
proof (cases "consumer s l")
  case None
  then show ?thesis by (simp add: deliver_unresolved)
next
  case (Some c)
  obtain t wn where c: "c = (t, wn)" by (cases c)
  with Some assms have "k \<noteq> t" by auto
  moreover from Some c obtain w where "widget_at s t wn = Some w"
    using consumer_widget by blast
  ultimately show ?thesis
    using Some c
    by (simp add: deliver_resolved graph_nodes_notify_other graph_nodes_write_other)
qed

lemma consumer_deliver [simp]: "consumer (deliver v l s) = consumer s"
  by (rule ext, rule skeleton_consumer, simp)

lemma graph_nodes_fold_deliver_other:
  "(\<And>l wn. l \<in> set ls \<Longrightarrow> consumer s l \<noteq> Some (k, wn)) \<Longrightarrow>
   graph_nodes (fold (deliver v) ls s) k = graph_nodes s k"
proof (induction ls arbitrary: s)
  case Nil
  then show ?case by simp
next
  case (Cons l ls)
  have here: "graph_nodes (deliver v l s) k = graph_nodes s k"
    by (rule graph_nodes_deliver_other) (rule Cons.prems, simp)
  have "graph_nodes (fold (deliver v) ls (deliver v l s)) k = graph_nodes (deliver v l s) k"
  proof (rule Cons.IH)
    fix l' wn assume "l' \<in> set ls"
    then have "consumer s l' \<noteq> Some (k, wn)" by (intro Cons.prems) simp
    then show "consumer (deliver v l s) l' \<noteq> Some (k, wn)" by simp
  qed
  with here show ?case by simp
qed

lemma in_consumers:
  "c \<in> set (consumers s nid slot) \<longleftrightarrow>
     (\<exists>l \<in> set (slot_links s nid slot). consumer s l = Some c)"
  by (force simp: consumers_def map_filter_def)

lemma graph_nodes_propagateOutput_other:
  assumes "k \<notin> fst ` set (consumers s nid slot)"
  shows "graph_nodes (propagateOutput nid slot v s) k = graph_nodes s k"
  unfolding propagateOutput_def
proof (rule graph_nodes_fold_deliver_other)
  fix l wn assume "l \<in> set (slot_links s nid slot)"
  show "consumer s l \<noteq> Some (k, wn)"
  proof
    assume "consumer s l = Some (k, wn)"
    with \<open>l \<in> set (slot_links s nid slot)\<close> have "(k, wn) \<in> set (consumers s nid slot)"
      by (auto simp: in_consumers)
    then have "k \<in> fst ` set (consumers s nid slot)" by force
    with assms show False by simp
  qed
qed

subsection \<open>fields that widget updates leave alone\<close>

lemma modify_widget_fields [simp]:
  "historyModal (modify_widget nid nm f s) = historyModal s"
  "body_children (modify_widget nid nm f s) = body_children s"
  "keydown_listeners (modify_widget nid nm f s) = keydown_listeners s"
  "timers (modify_widget nid nm f s) = timers s"
  "trace (modify_widget nid nm f s) = trace s"
  by (simp_all add: modify_widget_def split: option.splits)

lemma write_value_fields [simp]:
  "historyModal (write_value nid nm v s) = historyModal s"
  "body_children (write_value nid nm v s) = body_children s"
  "keydown_listeners (write_value nid nm v s) = keydown_listeners s"
  "timers (write_value nid nm v s) = timers s"
  "graph_links (write_value nid nm v s) = graph_links s"
  by (simp_all add: write_value_def)

lemma setDirtyCanvas_fields [simp]:
  "historyModal (setDirtyCanvas nid s) = historyModal s"
  "body_children (setDirtyCanvas nid s) = body_children s"
  "keydown_listeners (setDirtyCanvas nid s) = keydown_listeners s"
  "timers (setDirtyCanvas nid s) = timers s"
  "graph_links (setDirtyCanvas nid s) = graph_links s"
  by (simp_all add: setDirtyCanvas_def)

lemma isHistoryModalOpen_upd [simp]:
  "isHistoryModalOpen (trace_update ft s) = isHistoryModalOpen s"
  "isHistoryModalOpen (timers_update fm s) = isHistoryModalOpen s"
  "isHistoryModalOpen (modify_widget nid nm f s) = isHistoryModalOpen s"
  by (simp_all add: isHistoryModalOpen_def)

subsection \<open>the modal\<close>

lemma ensure_existing: "historyModal s = Some m \<Longrightarrow> ensureHistoryModal s = s"
  by (simp add: ensureHistoryModal_def)

lemma open_existing:
  "historyModal s = Some m \<Longrightarrow>
   openHistoryModal t s =
     s\<lparr>historyModal := Some (m\<lparr>content_text := to_str (or_empty t), overlay_display := ''flex''\<rparr>),
       timers := timers s @ [ScrollModalBottom]\<rparr>"
  by (simp add: openHistoryModal_def ensure_existing)

lemma open_first:
  "historyModal s = None \<Longrightarrow>
   openHistoryModal t s =
     s\<lparr>historyModal := Some \<lparr>overlay_elem = length (body_children s),
                               overlay_display = ''flex'', content_text = to_str (or_empty t)\<rparr>,
       body_children := body_children s @ [length (body_children s)],
       keydown_listeners := Suc (keydown_listeners s),
       timers := timers s @ [ScrollModalBottom]\<rparr>"
  by (simp add: openHistoryModal_def ensureHistoryModal_def)

lemma open_is_open [simp]: "isHistoryModalOpen (openHistoryModal t s)"
  by (cases "historyModal s") (simp_all add: open_first open_existing isHistoryModalOpen_def)

lemma open_content:
  "map_option content_text (historyModal (openHistoryModal t s)) = Some (to_str (or_empty t))"
  by (cases "historyModal s") (simp_all add: open_first open_existing)

lemma modal_identity_upd [simp]:
  "modal_identity (trace_update ft s) = modal_identity s"
  "modal_identity (timers_update fm s) = modal_identity s"
  "modal_identity (modify_widget nid nm f s) = modal_identity s"
  "modal_identity (write_value nid nm v s) = modal_identity s"
  "modal_identity (setDirtyCanvas nid s) = modal_identity s"
  by (simp_all add: modal_identity_def)

lemma modal_identity_open_existing:
  "historyModal s \<noteq> None \<Longrightarrow> modal_identity (openHistoryModal t s) = modal_identity s"
  by (auto simp: open_existing modal_identity_def)

lemma modal_identity_close [simp]: "modal_identity (closeHistoryModal s) = modal_identity s"
  by (simp add: closeHistoryModal_def modal_identity_def split: option.splits)

lemma modal_identity_viewer_sync [simp]:
  "modal_identity (viewer_sync nid nm v s) = modal_identity s"
  by (auto simp: viewer_sync_def Let_def isHistoryModalOpen_def modal_identity_open_existing
      split: option.splits)

lemma modal_identity_invoke [simp]: "modal_identity (invoke c nid nm v s) = modal_identity s"
  by (induction c nid nm v s rule: invoke.induct) simp_all

lemma modal_identity_notify [simp]: "modal_identity (notify w nid nm v s) = modal_identity s"
  by (simp add: notify_def split: option.splits)

lemma modal_identity_setWidgetValue [simp]:
  "modal_identity (setWidgetValue nid nm v s) = modal_identity s"
  by (simp add: setWidgetValue_def split: option.splits)

lemma modal_identity_deliver [simp]: "modal_identity (deliver v l s) = modal_identity s"
  by (simp add: deliver_def split: option.splits)

lemma modal_identity_fold_deliver [simp]:
  "modal_identity (fold (deliver v) ls s) = modal_identity s"
  by (induction ls arbitrary: s) simp_all

lemma modal_identity_propagateOutput [simp]:
  "modal_identity (propagateOutput nid slot v s) = modal_identity s"
  by (simp add: propagateOutput_def)

lemma modal_identity_sendAction_response [simp]:
  "modal_identity (sendAction_response nid a res s) = modal_identity s"
  by (simp add: sendAction_response_def Let_def split: outcome.splits)

lemma modal_identity_sendAction [simp]: "modal_identity (sendAction nid fr s) = modal_identity s"
  by (simp add: sendAction_def sendAction_request_def Let_def)

subsection \<open>widgets found by name\<close>

lemma widget_at_ensure [simp]: "widget_at (ensureHistoryModal s) = widget_at s"
  by (simp add: ensureHistoryModal_def split: option.splits)

lemma widget_at_open [simp]: "widget_at (openHistoryModal t s) = widget_at s"
  by (simp add: openHistoryModal_def Let_def)

lemma widget_at_close [simp]: "widget_at (closeHistoryModal s) = widget_at s"
  by (simp add: closeHistoryModal_def split: option.splits)

lemma name_mirror_input [simp]: "w_name (mirror_input v w) = w_name w"
  by (simp add: mirror_input_def split: option.splits)

lemma value_mirror_input [simp]: "w_value (mirror_input v w) = w_value w"
  by (simp add: mirror_input_def split: option.splits)

lemma onChange_mirror_input [simp]: "w_onChange (mirror_input v w) = w_onChange w"
  by (simp add: mirror_input_def split: option.splits)

lemma widget_at_viewer_sync:
  "widget_at (viewer_sync nid nm v s) k nm' =
     (if k = nid \<and> nm' = nm then map_option (mirror_input v) (widget_at s nid nm)
      else widget_at s k nm')"
  by (simp add: viewer_sync_def Let_def widget_at_modify)

lemma widget_value_upd [simp]:
  "widget_value (trace_update ft s) = widget_value s"
  "widget_value (timers_update fm s) = widget_value s"
  "widget_value (historyModal_update fh s) = widget_value s"
  "widget_value (setDirtyCanvas k s) = widget_value s"
  "widget_value (openHistoryModal t s) = widget_value s"
  "widget_value (closeHistoryModal s) = widget_value s"
  by (simp_all add: widget_value_def fun_eq_iff)

lemma widget_value_write:
  "widget_value (write_value nid nm v s) k nm' =
     (if k = nid \<and> nm' = nm then map_option (\<lambda>x. v) (widget_value s nid nm)
      else widget_value s k nm')"
  by (simp add: widget_value_def widget_at_write option.map_comp comp_def)

lemma widget_value_viewer_sync [simp]:
  "widget_value (viewer_sync nid nm v s) = widget_value s"
  by (simp add: widget_value_def widget_at_viewer_sync fun_eq_iff option.map_comp comp_def)

lemma widget_value_invoke [simp]: "widget_value (invoke c nid nm v s) = widget_value s"
  by (induction c nid nm v s rule: invoke.induct) simp_all

lemma widget_value_notify [simp]: "widget_value (notify w nid nm v s) = widget_value s"
  by (simp add: notify_def split: option.splits)

lemma widget_value_Some_iff:
  "(\<exists>x. widget_value s k nm = Some x) \<longleftrightarrow> (\<exists>w. widget_at s k nm = Some w)"
  by (simp add: widget_value_def)

lemma widget_value_setWidgetValue:
  "widget_value (setWidgetValue nid nm v s) k nm' =
     (if k = nid \<and> nm' = nm then map_option (\<lambda>x. nullish_or_empty v) (widget_value s nid nm)
      else widget_value s k nm')"
  by (cases "widget_at s nid nm")
     (simp_all add: setWidgetValue_def widget_value_write, simp add: widget_value_def)

lemma widget_value_deliver:
  "widget_value (deliver v l s) k nm =
     (if consumer s l = Some (k, nm) then Some v else widget_value s k nm)"
proof (cases "consumer s l")
  case None
  then show ?thesis by (simp add: deliver_unresolved)
next
  case (Some c)
  obtain t wn where c: "c = (t, wn)" by (cases c)
  from Some c obtain w where w: "widget_at s t wn = Some w"
    using consumer_widget by blast
  then have "widget_value s t wn = Some (w_value w)" by (simp add: widget_value_def)
  with Some c w show ?thesis
    by (auto simp: deliver_resolved widget_value_write)
qed

lemma widget_value_fold_deliver:
  "widget_value (fold (deliver v) ls s) k nm =
     (if \<exists>l \<in> set ls. consumer s l = Some (k, nm) then Some v else widget_value s k nm)"
proof (induction ls arbitrary: s)
  case Nil
  then show ?case by simp
next
  case (Cons l ls)
  show ?case
    by (simp add: Cons.IH widget_value_deliver)
qed

lemma widget_value_propagateOutput:
  "widget_value (propagateOutput nid slot v s) k nm =
     (if (k, nm) \<in> set (consumers s nid slot) then Some v else widget_value s k nm)"
  by (simp add: propagateOutput_def widget_value_fold_deliver in_consumers)

lemma consumers_propagateOutput [simp]:
  "consumers (propagateOutput nid slot v s) = consumers s"
  by (intro ext, rule skeleton_consumers, simp)

lemma consumers_write [simp]: "consumers (write_value nid nm v s) = consumers s"
  by (intro ext, rule skeleton_consumers, simp)

lemma consumers_dirty [simp]: "consumers (setDirtyCanvas nid s) = consumers s"
  by (intro ext, rule skeleton_consumers, simp)

subsection \<open>inputs, outputs and links\<close>

lemma skeleton_inputs:
  assumes "skeleton s' = skeleton s"
  shows "map_option n_inputs (graph_nodes s' k) = map_option n_inputs (graph_nodes s k)"
  using skeleton_node_cases[OF assms, of k]
proof (elim disjE exE conjE)
  fix n' n
  assume "graph_nodes s' k = Some n'" "graph_nodes s k = Some n" "node_frame n' = node_frame n"
  with node_frame_inputs[of n' n] show ?thesis by simp
qed simp

lemma skeleton_outputs:
  assumes "skeleton s' = skeleton s"
  shows "map_option n_outputs (graph_nodes s' k) = map_option n_outputs (graph_nodes s k)"
  using skeleton_node_cases[OF assms, of k]
proof (elim disjE exE conjE)
  fix n' n
  assume "graph_nodes s' k = Some n'" "graph_nodes s k = Some n" "node_frame n' = node_frame n"
  with node_frame_outputs[of n' n] show ?thesis by simp
qed simp

subsection \<open>the trace\<close>

lemma writes_notified_append:
  "writes_notified xs \<Longrightarrow> writes_notified ys \<Longrightarrow> writes_notified (xs @ ys)"
proof (induction xs rule: writes_notified.induct)
  case (2 n w v cb es)
  then show ?case by (cases es) (auto split: event.splits)
qed simp_all

lemma writes_notified_callbacks: "writes_notified (replicate k (EvCallback n w v))"
  by (induction k) simp_all

lemma starts_with_callback_append:
  "\<not> starts_with_callback xs \<Longrightarrow> \<not> starts_with_callback ys \<Longrightarrow>
   \<not> starts_with_callback (xs @ ys)"
  by (cases xs rule: starts_with_callback.cases) simp_all

lemma notified_run_append:
  "notified_run xs \<Longrightarrow> notified_run ys \<Longrightarrow> notified_run (xs @ ys)"
  by (simp add: notified_run_def writes_notified_append starts_with_callback_append)

lemma notified_run_Nil [simp]: "notified_run []"
  by (simp add: notified_run_def)

lemma notified_run_dirty [simp]: "notified_run [EvDirty n]"
  by (simp add: notified_run_def)

lemma trace_ensure [simp]: "trace (ensureHistoryModal s) = trace s"
  by (simp add: ensureHistoryModal_def split: option.splits)

lemma trace_open [simp]: "trace (openHistoryModal t s) = trace s"
  by (simp add: openHistoryModal_def Let_def)

lemma trace_close [simp]: "trace (closeHistoryModal s) = trace s"
  by (simp add: closeHistoryModal_def split: option.splits)

lemma trace_viewer_sync [simp]: "trace (viewer_sync nid nm v s) = trace s"
  by (simp add: viewer_sync_def Let_def)

lemma trace_write:
  "trace (write_value nid nm v s) = trace s @ [EvWrite nid nm v (has_callback s nid nm)]"
  by (simp add: write_value_def)

lemma trace_dirty: "trace (setDirtyCanvas nid s) = trace s @ [EvDirty nid]"
  by (simp add: setDirtyCanvas_def)

lemma trace_invoke:
  "trace (invoke c nid nm v s) = trace s @ replicate (calls c) (EvCallback nid nm v)"
  by (induction c nid nm v s rule: invoke.induct) (simp_all add: replicate_append_same)

lemma calls_pos: "0 < calls c"
  by (induction c rule: calls.induct) simp_all

text \<open>The events of one assignment followed by the conditional call of the callback.\<close>

lemma trace_write_notify:
  assumes "widget_at s nid nm = Some w"
  shows "\<exists>es. trace (notify w nid nm v' (write_value nid nm v s)) =
               trace s @ EvWrite nid nm v (has_callback s nid nm) # es \<and>
              writes_notified (EvWrite nid nm v (has_callback s nid nm) # es)"
proof (cases "w_onChange w")
  case None
  with assms show ?thesis
    by (simp add: notify_def trace_write has_callback_def)
next
  case (Some c)
  obtain k where k: "calls c = Suc k" using calls_pos[of c] by (cases "calls c") auto
  have "trace (notify w nid nm v' (write_value nid nm v s)) =
        trace s @ EvWrite nid nm v (has_callback s nid nm) # replicate (calls c) (EvCallback nid nm v')"
    using Some by (simp add: notify_def trace_invoke trace_write)
  moreover have "writes_notified
      (EvWrite nid nm v (has_callback s nid nm) # replicate (calls c) (EvCallback nid nm v'))"
    using writes_notified_callbacks[of k nid nm v'] by (simp add: k)
  ultimately show ?thesis by blast
qed

lemma trace_setWidgetValue:
  "\<exists>es. trace (setWidgetValue nid nm v s) = trace s @ es \<and> notified_run es"
proof (cases "widget_at s nid nm")
  case None
  then show ?thesis by (simp add: setWidgetValue_def)
next
  case (Some w)
  from trace_write_notify[OF Some, of v "nullish_or_empty v"] obtain es where
    es: "trace (notify w nid nm v (write_value nid nm (nullish_or_empty v) s)) =
           trace s @ EvWrite nid nm (nullish_or_empty v) (has_callback s nid nm) # es"
    and wn: "writes_notified (EvWrite nid nm (nullish_or_empty v) (has_callback s nid nm) # es)"
    by blast
  have "notified_run ((EvWrite nid nm (nullish_or_empty v) (has_callback s nid nm) # es) @ [EvDirty nid])"
    using wn by (intro notified_run_append) (simp_all add: notified_run_def)
  with Some es show ?thesis
    by (simp add: setWidgetValue_def trace_dirty)
qed

lemma trace_deliver:
  "\<exists>es. trace (deliver v l s) = trace s @ es \<and> notified_run es \<and>
        (\<forall>k nm. consumer s l = Some (k, nm) \<longrightarrow> delivered es k nm v)"
proof (cases "consumer s l")
  case None
  then show ?thesis by (simp add: deliver_unresolved)
next
  case (Some c)
  obtain t wn where c: "c = (t, wn)" by (cases c)
  from Some c obtain w where w: "widget_at s t wn = Some w"
    using consumer_widget by blast
  from trace_write_notify[OF w, of v v] obtain es where
    es: "trace (notify w t wn v (write_value t wn v s)) =
           trace s @ EvWrite t wn v (has_callback s t wn) # es"
    and wn: "writes_notified (EvWrite t wn v (has_callback s t wn) # es)"
    by blast
  have "notified_run ((EvWrite t wn v (has_callback s t wn) # es) @ [EvDirty t])"
    using wn by (intro notified_run_append) (simp_all add: notified_run_def)
  moreover have "delivered ((EvWrite t wn v (has_callback s t wn) # es) @ [EvDirty t]) t wn v"
    by (cases "has_callback s t wn") (simp_all add: delivered_def)
  ultimately show ?thesis
    using Some c w es by (simp add: deliver_resolved trace_dirty)
qed

lemma delivered_append: "delivered xs k nm v \<or> delivered ys k nm v \<Longrightarrow> delivered (xs @ ys) k nm v"
  by (auto simp: delivered_def)

lemma trace_fold_deliver:
  "\<exists>es. trace (fold (deliver v) ls s) = trace s @ es \<and> notified_run es \<and>
        (\<forall>l \<in> set ls. \<forall>k nm. consumer s l = Some (k, nm) \<longrightarrow> delivered es k nm v)"
proof (induction ls arbitrary: s)
  case Nil
  then show ?case by simp
next
  case (Cons l ls)
  from trace_deliver[of v l s] obtain es1 where
    1: "trace (deliver v l s) = trace s @ es1" "notified_run es1"
       "\<forall>k nm. consumer s l = Some (k, nm) \<longrightarrow> delivered es1 k nm v"
    by blast
  from Cons.IH[of "deliver v l s"] obtain es2 where
    2: "trace (fold (deliver v) ls (deliver v l s)) = trace (deliver v l s) @ es2"
       "notified_run es2"
       "\<forall>l' \<in> set ls. \<forall>k nm. consumer s l' = Some (k, nm) \<longrightarrow> delivered es2 k nm v"
    by auto
  have "trace (fold (deliver v) (l # ls) s) = trace s @ (es1 @ es2)"
    using 1(1) 2(1) by simp
  moreover have "notified_run (es1 @ es2)"
    using 1(2) 2(2) by (rule notified_run_append)
  moreover have "\<forall>l' \<in> set (l # ls). \<forall>k nm. consumer s l' = Some (k, nm) \<longrightarrow>
                   delivered (es1 @ es2) k nm v"
    using 1(3) 2(3) by (auto intro: delivered_append)
  ultimately show ?case by blast
qed

lemma trace_propagateOutput:
  "\<exists>es. trace (propagateOutput nid slot v s) = trace s @ es \<and> notified_run es \<and>
        (\<forall>c \<in> set (consumers s nid slot). delivered es (fst c) (snd c) v)"
proof -
  from trace_fold_deliver[of v "slot_links s nid slot" s] obtain es where
    es: "trace (fold (deliver v) (slot_links s nid slot) s) = trace s @ es" "notified_run es"
      "\<forall>l \<in> set (slot_links s nid slot). \<forall>k nm. consumer s l = Some (k, nm) \<longrightarrow> delivered es k nm v"
    by blast
  have "\<forall>c \<in> set (consumers s nid slot). delivered es (fst c) (snd c) v"
  proof
    fix c assume "c \<in> set (consumers s nid slot)"
    then obtain l where "l \<in> set (slot_links s nid slot)" "consumer s l = Some c"
      by (auto simp: in_consumers)
    with es(3) show "delivered es (fst c) (snd c) v" by (cases c) auto
  qed
  with es(1,2) show ?thesis by (auto simp: propagateOutput_def)
qed

subsection \<open>the dispatcher\<close>

lemma has_callback_skeleton:
  assumes "skeleton s' = skeleton s"
  shows "has_callback s' k nm = has_callback s k nm"
proof -
  from skeleton_widget_at[OF assms, of k nm]
  show ?thesis
    by (cases "widget_at s' k nm"; cases "widget_at s k nm")
       (auto simp: has_callback_def dest: frame_onChange)
qed

lemma sendAction_unfold:
  "sendAction nid fr s =
     sendAction_response nid (selected_action s nid) (postJSON fr)
       (setDirtyCanvas nid
          (write_value nid ''status''
             (JStr (''working: '' @ to_str (selected_action s nid) @ ''...'')) s))"
  by (simp add: sendAction_def sendAction_request_def Let_def)

lemma widget_at_sendAction_request:
  "(k, nm) \<noteq> (nid, ''status'') \<Longrightarrow>
   widget_at (setDirtyCanvas nid (write_value nid ''status'' v s)) k nm = widget_at s k nm"
  by (auto simp: widget_at_write)

lemma upd_first_twice:
  "(\<And>w. w_name (f w) = w_name w) \<Longrightarrow>
   upd_first nm g (upd_first nm f ws) = upd_first nm (g \<circ> f) ws"
  by (induction ws) auto

lemma sendAction_threw:
  assumes "postJSON fr = Threw m"
  shows "sendAction nid fr s =
     setDirtyCanvas nid
       (write_value nid ''status'' (JStr (''error: '' @ m))
          (setDirtyCanvas nid
             (write_value nid ''status''
                (JStr (''working: '' @ to_str (selected_action s nid) @ ''...'')) s)))"
  using assms by (simp add: sendAction_unfold sendAction_response_def)

lemma sendAction_threw_trace:
  assumes "postJSON fr = Threw m"
  shows "trace (sendAction nid fr s) =
     trace s @
       [EvWrite nid ''status'' (JStr (''working: '' @ to_str (selected_action s nid) @ ''...''))
          (has_callback s nid ''status''),
        EvDirty nid,
        EvWrite nid ''status'' (JStr (''error: '' @ m)) (has_callback s nid ''status''),
        EvDirty nid]"
  by (simp add: sendAction_threw[OF assms] trace_dirty trace_write
      has_callback_skeleton[of "setDirtyCanvas nid (write_value nid ''status'' v s)" s for v])

lemma sendAction_threw_value:
  assumes "postJSON fr = Threw m"
  shows "widget_value (sendAction nid fr s) k nm =
     (if k = nid \<and> nm = ''status''
      then map_option (\<lambda>x. JStr (''error: '' @ m)) (widget_value s nid ''status'')
      else widget_value s k nm)"
  by (simp add: sendAction_threw[OF assms] widget_value_write option.map_comp comp_def)

lemma sendAction_threw_widget_at:
  assumes "postJSON fr = Threw m" and "(k, nm) \<noteq> (nid, ''status'')"
  shows "widget_at (sendAction nid fr s) k nm = widget_at s k nm"
  using assms(2) by (auto simp: sendAction_threw[OF assms(1)] widget_at_write)

lemma sendAction_threw_nodes:
  assumes "postJSON fr = Threw m" and "k \<noteq> nid"
  shows "graph_nodes (sendAction nid fr s) k = graph_nodes s k"
  using assms(2) by (simp add: sendAction_threw[OF assms(1)] graph_nodes_write_other)

lemma sendAction_threw_node:
  assumes "postJSON fr = Threw m"
  shows "graph_nodes (sendAction nid fr s) nid =
     map_option
       (\<lambda>n. n\<lparr>n_widgets :=
                map_option (upd_first ''status'' (\<lambda>w. w\<lparr>w_value := JStr (''error: '' @ m)\<rparr>))
                  (n_widgets n)\<rparr>)
       (graph_nodes s nid)"
proof (cases "graph_nodes s nid")
  case None
  then show ?thesis
    by (simp add: sendAction_threw[OF assms] write_value_def modify_widget_def setDirtyCanvas_def)
next
  case (Some n)
  have comp: "(\<lambda>w. w\<lparr>w_value := b\<rparr>) \<circ> (\<lambda>w. w\<lparr>w_value := a\<rparr>) = (\<lambda>w::widget. w\<lparr>w_value := b\<rparr>)" for a b
    by (simp add: fun_eq_iff)
  show ?thesis using Some
    by (cases "n_widgets n")
       (simp_all add: sendAction_threw[OF assms] write_value_def modify_widget_def
          setDirtyCanvas_def upd_first_twice comp)
qed

lemma sendAction_threw_rest:
  assumes "postJSON fr = Threw m"
  shows "graph_links (sendAction nid fr s) = graph_links s"
    and "historyModal (sendAction nid fr s) = historyModal s"
    and "timers (sendAction nid fr s) = timers s"
  by (simp_all add: sendAction_threw[OF assms])

lemma consumers_setWidgetValue [simp]: "consumers (setWidgetValue nid nm v s) = consumers s"
  by (intro ext, rule skeleton_consumers, simp)

lemma skeleton_sendAction_response [simp]:
  "skeleton (sendAction_response nid a res s) = skeleton s"
  by (simp add: sendAction_response_def Let_def split: outcome.splits)

lemma skeleton_sendAction [simp]: "skeleton (sendAction nid fr s) = skeleton s"
  by (simp add: sendAction_unfold)

lemma autoClear_upd [simp]:
  "autoClear (setDirtyCanvas k s) = autoClear s"
  by (simp add: autoClear_def fun_eq_iff)

lemma sendAction_returned_trace:
  assumes "postJSON fr = Returned data"
  defines "r \<equiv> or_empty (get_prop data ''assistant_response'')"
    and "h \<equiv> or_empty (get_prop data ''readable_history'')"
  shows "\<exists>es0 es1 es2.
     trace (sendAction nid fr s) =
       trace s @
         [EvWrite nid ''status'' (JStr (''working: '' @ to_str (selected_action s nid) @ ''...''))
            (has_callback s nid ''status''),
          EvDirty nid,
          EvWrite nid ''assistant_response_preview'' r
            (has_callback s nid ''assistant_response_preview''),
          EvWrite nid ''history_preview'' h (has_callback s nid ''history_preview'')] @
         es0 @ es1 @ es2 @
         [EvWrite nid ''status'' (JStr ''done'') (has_callback s nid ''status''), EvDirty nid] \<and>
     notified_run es0 \<and> notified_run es1 \<and> notified_run es2 \<and>
     (\<forall>c \<in> set (consumers s nid 0). delivered es0 (fst c) (snd c) r) \<and>
     (\<forall>c \<in> set (consumers s nid 1). delivered es1 (fst c) (snd c) h)"
proof -
  define s1 where "s1 = setDirtyCanvas nid
          (write_value nid ''status''
             (JStr (''working: '' @ to_str (selected_action s nid) @ ''...'')) s)"
  define s2 where "s2 = write_value nid ''history_preview'' h
                          (write_value nid ''assistant_response_preview'' r s1)"
  define s3 where "s3 = propagateOutput nid 0 r s2"
  define s4 where "s4 = propagateOutput nid 1 h s3"
  define s5 where "s5 = (if selected_action s nid = JStr ''send'' \<and> truthy (autoClear s4 nid)
                         then setWidgetValue nid ''user_message'' (JStr []) s4 else s4)"
  have res: "sendAction nid fr s = setDirtyCanvas nid (write_value nid ''status'' (JStr ''done'') s5)"
    unfolding sendAction_unfold assms(1) sendAction_response_def Let_def outcome.case
      s5_def s4_def s3_def s2_def s1_def r_def h_def ..
  have sk1: "skeleton s1 = skeleton s" by (simp add: s1_def)
  have sk2: "skeleton s2 = skeleton s" by (simp add: s2_def sk1)
  have sk3: "skeleton s3 = skeleton s" by (simp add: s3_def sk2)
  have sk4: "skeleton s4 = skeleton s" by (simp add: s4_def sk3)
  have sk5: "skeleton s5 = skeleton s" by (simp add: s5_def sk4)
  have ska: "skeleton (write_value nid ''assistant_response_preview'' r s1) = skeleton s"
    by (simp add: sk1)
  have t1: "trace s1 = trace s @
         [EvWrite nid ''status'' (JStr (''working: '' @ to_str (selected_action s nid) @ ''...''))
            (has_callback s nid ''status''), EvDirty nid]"
    by (simp add: s1_def trace_dirty trace_write)
  have t2: "trace s2 = trace s1 @
         [EvWrite nid ''assistant_response_preview'' r
            (has_callback s nid ''assistant_response_preview''),
          EvWrite nid ''history_preview'' h (has_callback s nid ''history_preview'')]"
    by (simp add: s2_def trace_write has_callback_skeleton[OF sk1] has_callback_skeleton[OF ska])
  from trace_propagateOutput[of nid 0 r s2] obtain es0 where
    t3: "trace s3 = trace s2 @ es0" and n0: "notified_run es0"
    and d0: "\<forall>c \<in> set (consumers s2 nid 0). delivered es0 (fst c) (snd c) r"
    unfolding s3_def by blast
  from trace_propagateOutput[of nid 1 h s3] obtain es1 where
    t4: "trace s4 = trace s3 @ es1" and n1: "notified_run es1"
    and d1: "\<forall>c \<in> set (consumers s3 nid 1). delivered es1 (fst c) (snd c) h"
    unfolding s4_def by blast
  obtain es2 where t5: "trace s5 = trace s4 @ es2" and n2: "notified_run es2"
    using trace_setWidgetValue[of nid "''user_message''" "JStr []" s4]
    by (cases "selected_action s nid = JStr ''send'' \<and> truthy (autoClear s4 nid)")
       (auto simp: s5_def)
  have c0: "consumers s2 = consumers s" by (intro ext, rule skeleton_consumers, rule sk2)
  have c1: "consumers s3 = consumers s" by (intro ext, rule skeleton_consumers, rule sk3)
  have "trace (sendAction nid fr s) =
       trace s @
         [EvWrite nid ''status'' (JStr (''working: '' @ to_str (selected_action s nid) @ ''...''))
            (has_callback s nid ''status''),
          EvDirty nid,
          EvWrite nid ''assistant_response_preview'' r
            (has_callback s nid ''assistant_response_preview''),
          EvWrite nid ''history_preview'' h (has_callback s nid ''history_preview'')] @
         es0 @ es1 @ es2 @
         [EvWrite nid ''status'' (JStr ''done'') (has_callback s nid ''status''), EvDirty nid]"
    by (simp add: res trace_dirty trace_write t1 t2 t3 t4 t5 has_callback_skeleton[OF sk5])
  with n0 n1 n2 d0 d1 show ?thesis
    unfolding c0 c1 by blast
qed

lemma autoClear_cong:
  "widget_value s' nid ''auto_clear_input'' = widget_value s nid ''auto_clear_input'' \<Longrightarrow>
   autoClear s' nid = autoClear s nid"
  by (simp add: autoClear_def)

lemma not_consumer:
  "k \<notin> fst ` set (consumers s nid slot) \<Longrightarrow> (k, nm) \<notin> set (consumers s nid slot)"
  by force

lemma sendAction_returned_values:
  assumes ok: "postJSON fr = Returned data"
    and n0: "nid \<notin> fst ` set (consumers s nid 0)"
    and n1: "nid \<notin> fst ` set (consumers s nid 1)"
  defines "r \<equiv> or_empty (get_prop data ''assistant_response'')"
    and "h \<equiv> or_empty (get_prop data ''readable_history'')"
  defines "s' \<equiv> sendAction nid fr s"
  shows "widget_value s' nid ''assistant_response_preview'' =
           map_option (\<lambda>x. r) (widget_value s nid ''assistant_response_preview'')"
    and "widget_value s' nid ''history_preview'' =
           map_option (\<lambda>x. h) (widget_value s nid ''history_preview'')"
    and "widget_value s' nid ''status'' =
           map_option (\<lambda>x. JStr ''done'') (widget_value s nid ''status'')"
    and "widget_value s' nid ''user_message'' =
           (if selected_action s nid = JStr ''send'' \<and> truthy (autoClear s nid)
            then map_option (\<lambda>x. JStr []) (widget_value s nid ''user_message'')
            else widget_value s nid ''user_message'')"
    and "\<And>c. c \<in> set (consumers s nid 1) \<Longrightarrow> widget_value s' (fst c) (snd c) = Some h"
    and "\<And>c. c \<in> set (consumers s nid 0) \<Longrightarrow> c \<notin> set (consumers s nid 1) \<Longrightarrow>
           widget_value s' (fst c) (snd c) = Some r"
proof -
  define s1 where "s1 = setDirtyCanvas nid
          (write_value nid ''status''
             (JStr (''working: '' @ to_str (selected_action s nid) @ ''...'')) s)"
  define s2 where "s2 = write_value nid ''history_preview'' h
                          (write_value nid ''assistant_response_preview'' r s1)"
  define s3 where "s3 = propagateOutput nid 0 r s2"
  define s4 where "s4 = propagateOutput nid 1 h s3"
  define s5 where "s5 = (if selected_action s nid = JStr ''send'' \<and> truthy (autoClear s4 nid)
                         then setWidgetValue nid ''user_message'' (JStr []) s4 else s4)"
  have res: "s' = setDirtyCanvas nid (write_value nid ''status'' (JStr ''done'') s5)"
    unfolding s'_def sendAction_unfold ok sendAction_response_def Let_def outcome.case
      s5_def s4_def s3_def s2_def s1_def r_def h_def ..
  have c2: "consumers s2 = consumers s" by (simp add: s2_def s1_def)
  have c3: "consumers s3 = consumers s" by (simp add: s3_def c2)
  have v1: "widget_value s1 k nm =
      (if k = nid \<and> nm = ''status''
       then map_option (\<lambda>x. JStr (''working: '' @ to_str (selected_action s nid) @ ''...''))
              (widget_value s nid ''status'')
       else widget_value s k nm)" for k nm
    by (simp add: s1_def widget_value_write)
  have v2: "widget_value s2 k nm =
      (if k = nid \<and> nm = ''history_preview''
       then map_option (\<lambda>x. h) (widget_value s nid ''history_preview'')
       else if k = nid \<and> nm = ''assistant_response_preview''
       then map_option (\<lambda>x. r) (widget_value s nid ''assistant_response_preview'')
       else widget_value s1 k nm)" for k nm
    by (simp add: s2_def widget_value_write v1)
  have v4: "widget_value s4 k nm =
      (if (k, nm) \<in> set (consumers s nid 1) then Some h
       else if (k, nm) \<in> set (consumers s nid 0) then Some r
       else widget_value s2 k nm)" for k nm
    by (simp add: s4_def s3_def widget_value_propagateOutput c2 c3)
  have own: "widget_value s4 nid nm = widget_value s2 nid nm" for nm
    using not_consumer[OF n0, of nm] not_consumer[OF n1, of nm] by (simp add: v4)
  have ac: "autoClear s4 nid = autoClear s nid"
    by (rule autoClear_cong) (simp add: own v2 v1)
  have v5: "widget_value s5 k nm =
      (if selected_action s nid = JStr ''send'' \<and> truthy (autoClear s nid) \<and>
          k = nid \<and> nm = ''user_message''
       then map_option (\<lambda>x. JStr []) (widget_value s4 nid ''user_message'')
       else widget_value s4 k nm)" for k nm
    by (simp add: s5_def ac widget_value_setWidgetValue nullish_or_empty_def)
  have v': "widget_value s' k nm =
      (if k = nid \<and> nm = ''status''
       then map_option (\<lambda>x. JStr ''done'') (widget_value s5 nid ''status'')
       else widget_value s5 k nm)" for k nm
    by (simp add: res widget_value_write)
  show "widget_value s' nid ''assistant_response_preview'' =
           map_option (\<lambda>x. r) (widget_value s nid ''assistant_response_preview'')"
    by (simp add: v' v5 own v2)
  show "widget_value s' nid ''history_preview'' =
           map_option (\<lambda>x. h) (widget_value s nid ''history_preview'')"
    by (simp add: v' v5 own v2)
  show "widget_value s' nid ''status'' =
           map_option (\<lambda>x. JStr ''done'') (widget_value s nid ''status'')"
    by (simp add: v' v5 own v2 v1 option.map_comp comp_def)
  show "widget_value s' nid ''user_message'' =
           (if selected_action s nid = JStr ''send'' \<and> truthy (autoClear s nid)
            then map_option (\<lambda>x. JStr []) (widget_value s nid ''user_message'')
            else widget_value s nid ''user_message'')"
    by (simp add: v' v5 own v2 v1)
  {
    fix c assume c: "c \<in> set (consumers s nid 1)"
    obtain k nm where kn: "c = (k, nm)" by (cases c)
    from c kn n1 have "k \<noteq> nid" by force
    with c kn show "widget_value s' (fst c) (snd c) = Some h"
      by (simp add: v' v5 v4)
  }
  {
    fix c assume c: "c \<in> set (consumers s nid 0)" and nc: "c \<notin> set (consumers s nid 1)"
    obtain k nm where kn: "c = (k, nm)" by (cases c)
    from c kn n0 have "k \<noteq> nid" by force
    with c nc kn show "widget_value s' (fst c) (snd c) = Some r"
      by (simp add: v' v5 v4)
  }
qed

subsection \<open>the viewer's callback and the modal\<close>

lemma or_empty_idem [simp]: "or_empty (or_empty v) = or_empty v"
  by (simp add: or_empty_def)

lemma or_empty_JStr [simp]: "or_empty (JStr t) = JStr t"
  by (simp add: or_empty_def)

lemma isHistoryModalOpen_viewer_sync [simp]:
  "isHistoryModalOpen (viewer_sync nid nm v s) = isHistoryModalOpen s"
  by (simp add: viewer_sync_def Let_def)

lemma isHistoryModalOpen_invoke [simp]:
  "isHistoryModalOpen (invoke c nid nm v s) = isHistoryModalOpen s"
  by (induction c nid nm v s rule: invoke.induct) simp_all

lemma viewer_sync_closed:
  "\<not> isHistoryModalOpen s \<Longrightarrow>
   historyModal (viewer_sync nid nm v s) = historyModal s \<and>
   timers (viewer_sync nid nm v s) = timers s @ [ScrollInputBottom nid nm]"
  by (simp add: viewer_sync_def Let_def)

lemma viewer_sync_open:
  "isHistoryModalOpen s \<Longrightarrow>
   map_option content_text (historyModal (viewer_sync nid nm v s)) = Some (to_str (or_empty v)) \<and>
   timers (viewer_sync nid nm v s) = timers s @ [ScrollModalBottom, ScrollInputBottom nid nm]"
  by (auto simp: viewer_sync_def Let_def isHistoryModalOpen_def open_existing split: option.splits)

lemma invoke_closed:
  "\<not> isHistoryModalOpen s \<Longrightarrow>
   historyModal (invoke c nid nm v s) = historyModal s \<and>
   (\<exists>ts. timers (invoke c nid nm v s) = timers s @ ts \<and> ScrollModalBottom \<notin> set ts)"
proof (induction c nid nm v s rule: invoke.induct)
  case (1 k nid nm v s)
  then show ?case by simp
next
  case (2 nid nm v s)
  then show ?case by (simp add: viewer_sync_closed)
next
  case (3 c nid nm v s)
  let ?s0 = "s\<lparr>trace := trace s @ [EvCallback nid nm v]\<rparr>"
  from 3 have "\<not> isHistoryModalOpen ?s0" by simp
  from "3.IH"[OF this] obtain ts where
    h: "historyModal (invoke c nid nm v ?s0) = historyModal s"
    and t: "timers (invoke c nid nm v ?s0) = timers s @ ts" "ScrollModalBottom \<notin> set ts"
    by auto
  from 3 have cl: "\<not> isHistoryModalOpen (invoke c nid nm v ?s0)" by simp
  have tm: "timers (invoke (ViewerOnChange (Some c)) nid nm v s) =
        timers s @ (ts @ [ScrollInputBottom nid nm])"
    using viewer_sync_closed[OF cl, of nid nm v] t(1) by simp
  have no: "ScrollModalBottom \<notin> set (ts @ [ScrollInputBottom nid nm])"
    using t(2) by simp
  have hm: "historyModal (invoke (ViewerOnChange (Some c)) nid nm v s) = historyModal s"
    using viewer_sync_closed[OF cl, of nid nm v] h by simp
  from tm no have "\<exists>ts'. timers (invoke (ViewerOnChange (Some c)) nid nm v s) = timers s @ ts' \<and>
      ScrollModalBottom \<notin> set ts'"
    by (intro exI[of _ "ts @ [ScrollInputBottom nid nm]"] conjI)
  with hm show ?case by (intro conjI)
qed

lemma timers_invoke: "\<exists>ts. timers (invoke c nid nm v s) = timers s @ ts"
proof (induction c nid nm v s rule: invoke.induct)
  case (1 k nid nm v s)
  then show ?case by simp
next
  case (2 nid nm v s)
  then show ?case
    by (cases "isHistoryModalOpen s") (simp_all add: viewer_sync_closed viewer_sync_open)
next
  case (3 c nid nm v s)
  let ?s1 = "invoke c nid nm v (s\<lparr>trace := trace s @ [EvCallback nid nm v]\<rparr>)"
  from "3.IH" obtain ts where t: "timers ?s1 = timers s @ ts" by auto
  show ?case
    using t viewer_sync_closed[of ?s1 nid nm v] viewer_sync_open[of ?s1 nid nm v]
    by (cases "isHistoryModalOpen ?s1") simp_all
qed

lemma mirror_input_text:
  "w_inputEl w = Some el \<Longrightarrow> w_inputEl (mirror_input (JStr t) w) = Some t"
  by (simp add: mirror_input_def)

lemma inputEl_frame:
  assumes "widget_frame w' = widget_frame w"
  shows "(w_inputEl w' = None) = (w_inputEl w = None)"
proof -
  have "w_inputEl (widget_frame w') = w_inputEl (widget_frame w)" by (simp only: assms)
  then show ?thesis
    by (cases "w_inputEl w'"; cases "w_inputEl w") (simp_all add: widget_frame_def)
qed

lemma skeleton_has_input:
  assumes "skeleton s' = skeleton s" and "widget_at s k nm = Some w" and "w_inputEl w = Some el"
  shows "\<exists>w' el'. widget_at s' k nm = Some w' \<and> w_inputEl w' = Some el'"
proof -
  from skeleton_widget_at[OF assms(1), of k nm] assms(2)
  obtain w' where w': "widget_at s' k nm = Some w'" "widget_frame w' = widget_frame w"
    by (cases "widget_at s' k nm") auto
  from inputEl_frame[OF w'(2)] assms(3) have "w_inputEl w' \<noteq> None" by simp
  with w'(1) show ?thesis by auto
qed

text \<open>The viewer's callback, whatever callback it wraps.\<close>

lemma invoke_viewer:
  "\<exists>s1. skeleton s1 = skeleton s \<and> isHistoryModalOpen s1 = isHistoryModalOpen s \<and>
        (\<not> isHistoryModalOpen s \<longrightarrow> historyModal s1 = historyModal s \<and>
           (\<exists>ts. timers s1 = timers s @ ts \<and> ScrollModalBottom \<notin> set ts)) \<and>
        (\<exists>ts. timers s1 = timers s @ ts) \<and>
        modal_identity s1 = modal_identity s \<and>
        invoke (ViewerOnChange orig) nid nm v s = viewer_sync nid nm v s1"
proof (cases orig)
  case None
  let ?s1 = "s\<lparr>trace := trace s @ [EvCallback nid nm v]\<rparr>"
  have "invoke (ViewerOnChange orig) nid nm v s = viewer_sync nid nm v ?s1"
    using None by simp
  moreover have "skeleton ?s1 = skeleton s" "isHistoryModalOpen ?s1 = isHistoryModalOpen s"
    "historyModal ?s1 = historyModal s" "timers ?s1 = timers s @ []"
    "modal_identity ?s1 = modal_identity s"
    by simp_all
  ultimately show ?thesis by (intro exI[of _ ?s1]) auto
next
  case (Some c)
  let ?s0 = "s\<lparr>trace := trace s @ [EvCallback nid nm v]\<rparr>"
  let ?s1 = "invoke c nid nm v ?s0"
  have "invoke (ViewerOnChange orig) nid nm v s = viewer_sync nid nm v ?s1"
    using Some by simp
  moreover have "skeleton ?s1 = skeleton s" "isHistoryModalOpen ?s1 = isHistoryModalOpen s"
    "modal_identity ?s1 = modal_identity s"
    by simp_all
  moreover have "\<not> isHistoryModalOpen s \<longrightarrow> historyModal ?s1 = historyModal s \<and>
           (\<exists>ts. timers ?s1 = timers s @ ts \<and> ScrollModalBottom \<notin> set ts)"
    using invoke_closed[of ?s0 c nid nm v] by simp
  moreover have "\<exists>ts. timers ?s1 = timers s @ ts"
    using timers_invoke[of c nid nm v ?s0] by simp
  ultimately show ?thesis by (intro exI[of _ ?s1]) blast
qed

subsection \<open>what the setup routines establish\<close>

lemma find_app:
  "find P (xs @ ys) = (case find P xs of None \<Rightarrow> find P ys | Some x \<Rightarrow> Some x)"
  by (induction xs) simp_all

lemma widget_at_addWidget:
  "graph_nodes s nid = Some n \<Longrightarrow>
   widget_at (addWidget nid nm v s) nid nm' =
     (case widget_at s nid nm' of
        Some w \<Rightarrow> Some w
      | None \<Rightarrow>
          if nm' = nm
          then Some \<lparr>w_name = nm, w_value = v, w_onChange = None, w_inputEl = None\<rparr>
          else None)"
  by (cases "n_widgets n")
     (simp_all add: addWidget_def widget_at_def node_widgets_def find_widget_def find_app
        split: option.splits)

lemma node_exists_addWidget:
  "graph_nodes s nid = Some n \<Longrightarrow> \<exists>n'. graph_nodes (addWidget nid nm v s) nid = Some n'"
  by (simp add: addWidget_def)

lemma widget_at_addOrGetWidget:
  assumes "graph_nodes s nid = Some n"
  shows "widget_at (addOrGetWidget nid nm v s) nid nm' =
     (case widget_at s nid nm' of
        Some w \<Rightarrow> Some w
      | None \<Rightarrow>
          if nm' = nm
          then Some \<lparr>w_name = nm, w_value = v, w_onChange = None, w_inputEl = None\<rparr>
          else None)"
proof -
  let ?s1 = "s\<lparr>graph_nodes :=
                (graph_nodes s)(nid \<mapsto>
                   n\<lparr>n_widgets := Some (case n_widgets n of None \<Rightarrow> [] | Some ws \<Rightarrow> ws)\<rparr>)\<rparr>"
  have same: "widget_at ?s1 nid x = widget_at s nid x" for x
    using assms
    by (cases "n_widgets n") (simp_all add: widget_at_def node_widgets_def find_widget_def)
  have ex: "graph_nodes ?s1 nid =
      Some (n\<lparr>n_widgets := Some (case n_widgets n of None \<Rightarrow> [] | Some ws \<Rightarrow> ws)\<rparr>)"
    by simp
  have unfold: "addOrGetWidget nid nm v s =
      (case widget_at ?s1 nid nm of Some w \<Rightarrow> ?s1 | None \<Rightarrow> addWidget nid nm v ?s1)"
    using assms by (simp add: addOrGetWidget_def Let_def)
  show ?thesis
  proof (cases "widget_at s nid nm")
    case None
    then show ?thesis
      unfolding unfold by (simp add: same widget_at_addWidget[OF ex])
  next
    case (Some w)
    then show ?thesis
      unfolding unfold by (auto simp: same split: option.splits)
  qed
qed

lemma node_exists_addOrGetWidget:
  "graph_nodes s nid = Some n \<Longrightarrow> \<exists>n'. graph_nodes (addOrGetWidget nid nm v s) nid = Some n'"
  by (auto simp: addOrGetWidget_def Let_def addWidget_def split: option.splits)

text \<open>After \<^verbatim>\<open>setupChatNode\<close> the node has the widgets the dispatcher refers to.\<close>

lemma setupChatNode_ready:
  assumes "graph_nodes s nid = Some n"
  shows "chat_ready (setupChatNode nid s) nid"
proof -
  define s1 where "s1 = addOrGetWidget nid ''status'' (JStr ''idle'') s"
  define s2 where "s2 = addOrGetWidget nid ''history_preview'' (JStr []) s1"
  define s3 where "s3 = addOrGetWidget nid ''assistant_response_preview'' (JStr []) s2"
  from node_exists_addOrGetWidget[OF assms] obtain n1 where n1: "graph_nodes s1 nid = Some n1"
    unfolding s1_def by blast
  from node_exists_addOrGetWidget[OF n1] obtain n2 where n2: "graph_nodes s2 nid = Some n2"
    unfolding s2_def by blast
  from node_exists_addOrGetWidget[OF n2] obtain n3 where n3: "graph_nodes s3 nid = Some n3"
    unfolding s3_def by blast
  have a1: "widget_at s1 nid ''status'' \<noteq> None"
    unfolding s1_def by (simp add: widget_at_addOrGetWidget[OF assms] split: option.splits)
  have a2: "widget_at s2 nid ''status'' \<noteq> None" "widget_at s2 nid ''history_preview'' \<noteq> None"
    using a1 unfolding s2_def
    by (simp_all add: widget_at_addOrGetWidget[OF n1] split: option.splits)
  have a3: "widget_at s3 nid ''status'' \<noteq> None" "widget_at s3 nid ''history_preview'' \<noteq> None"
    "widget_at s3 nid ''assistant_response_preview'' \<noteq> None"
    using a2 unfolding s3_def
    by (simp_all add: widget_at_addOrGetWidget[OF n2] split: option.splits)
  have r3: "chat_ready s3 nid" using a3 by (simp add: chat_ready_def)
  have fin: "setupChatNode nid s =
      (case widget_at s3 nid ''Execute'' of Some b \<Rightarrow> s3 | None \<Rightarrow> addWidget nid ''Execute'' JNull s3)"
    unfolding setupChatNode_def Let_def s1_def s2_def s3_def ..
  show ?thesis
  proof (cases "widget_at s3 nid ''Execute''")
    case None
    then show ?thesis
      using a3 unfolding fin
      by (simp add: chat_ready_def widget_at_addWidget[OF n3] split: option.splits)
  next
    case (Some b)
    then show ?thesis using r3 unfolding fin by simp
  qed
qed

text \<open>
  After \<^verbatim>\<open>setupHistoryViewer\<close> the \<^verbatim>\<open>history\<close> widget carries the viewer's callback,
  wrapped around the callback the widget had.
\<close>

lemma setupHistoryViewer_installs:
  assumes "graph_nodes s nid = Some n"
  shows "\<exists>w orig. widget_at (setupHistoryViewer nid s) nid ''history'' = Some w \<and>
                  w_onChange w = Some (ViewerOnChange orig)"
proof -
  define s1 where "s1 = (case widget_at s nid ''history'' of
                  Some historyWidget \<Rightarrow> s
                | None \<Rightarrow> addWidget nid ''history'' (JStr []) s)"
  define s2 where "s2 = (case widget_at s1 nid ''Open History'' of
                  Some existingButton \<Rightarrow> s1
                | None \<Rightarrow> addWidget nid ''Open History'' JNull s1)"
  have n1: "\<exists>n1. graph_nodes s1 nid = Some n1"
    using assms node_exists_addWidget[OF assms]
    by (simp add: s1_def split: option.splits)
  then obtain m1 where m1: "graph_nodes s1 nid = Some m1" by blast
  have h1: "widget_at s1 nid ''history'' \<noteq> None"
    by (cases "widget_at s nid ''history''") (simp_all add: s1_def widget_at_addWidget[OF assms])
  have h2: "widget_at s2 nid ''history'' \<noteq> None"
    using h1
    by (cases "widget_at s1 nid ''Open History''")
       (simp_all add: s2_def widget_at_addWidget[OF m1] split: option.splits)
  then obtain w where w: "widget_at s2 nid ''history'' = Some w" by blast
  have "setupHistoryViewer nid s =
      modify_widget nid ''history'' (\<lambda>w. w\<lparr>w_onChange := Some (ViewerOnChange (w_onChange w))\<rparr>) s2"
    unfolding setupHistoryViewer_def Let_def s1_def s2_def ..
  then have "widget_at (setupHistoryViewer nid s) nid ''history'' =
      Some (w\<lparr>w_onChange := Some (ViewerOnChange (w_onChange w))\<rparr>)"
    using w by (simp add: widget_at_modify)
  then show ?thesis by auto
qed

lemma widget_exists_skeleton:
  assumes "skeleton s' = skeleton s"
  shows "(widget_at s' k nm = None) = (widget_at s k nm = None)"
  using skeleton_widget_at[OF assms, of k nm]
  by (cases "widget_at s' k nm"; cases "widget_at s k nm") simp_all

lemma sendAction_returned_status:
  assumes ok: "postJSON fr = Returned data" and st: "widget_at s nid ''status'' \<noteq> None"
  shows "widget_value (sendAction nid fr s) nid ''status'' = Some (JStr ''done'')"
proof -
  define s1 where "s1 = setDirtyCanvas nid
          (write_value nid ''status''
             (JStr (''working: '' @ to_str (selected_action s nid) @ ''...'')) s)"
  define s4 where "s4 = propagateOutput nid 1 (or_empty (get_prop data ''readable_history''))
      (propagateOutput nid 0 (or_empty (get_prop data ''assistant_response''))
         (write_value nid ''history_preview'' (or_empty (get_prop data ''readable_history''))
            (write_value nid ''assistant_response_preview''
               (or_empty (get_prop data ''assistant_response'')) s1)))"
  define s5 where "s5 = (if selected_action s nid = JStr ''send'' \<and> truthy (autoClear s4 nid)
                         then setWidgetValue nid ''user_message'' (JStr []) s4 else s4)"
  have res: "sendAction nid fr s = setDirtyCanvas nid (write_value nid ''status'' (JStr ''done'') s5)"
    unfolding sendAction_unfold ok sendAction_response_def Let_def outcome.case
      s5_def s4_def s1_def ..
  have sk4: "skeleton s4 = skeleton s" by (simp add: s4_def s1_def)
  have sk5: "skeleton s5 = skeleton s" by (simp add: s5_def sk4)
  from widget_exists_skeleton[OF sk5, of nid "''status''"] st
  obtain w where "widget_at s5 nid ''status'' = Some w" by auto
  then have "widget_value s5 nid ''status'' = Some (w_value w)"
    by (simp add: widget_value_def)
  then show ?thesis
    by (simp add: res widget_value_write)
qed

section \<open>Configuration resolver: claims\<close>

text \<open>
  C3. The claim: when the \<^verbatim>\<open>llm_config\<close> input of a node is connected to a resolvable
  origin node that has a widget named \<^verbatim>\<open>api_key\<close>, the record of \<^verbatim>\<open>getLLMConfig\<close>,
  and so the \<^verbatim>\<open>llm_config\<close> object of the payload, has an \<^verbatim>\<open>api_key\<close> key with that
  widget's value. The code copies seven fields and \<^verbatim>\<open>api_key\<close> is not among them: on
  the graph below, where the origin node has the single widget \<^verbatim>\<open>api_key = "sk-1"\<close>,
  the record is empty and the payload carries an empty \<^verbatim>\<open>llm_config\<close> object.
\<close>

theorem getLLMConfig_omits_api_key:
  "config_origin (config_state (Some 5) [plain_widget ''api_key'' (JStr ''sk-1'')]) 1 =
     Some \<lparr>n_widgets = Some [plain_widget ''api_key'' (JStr ''sk-1'')], n_inputs = None,
           n_outputs = Some [\<lparr>o_links = Some [5]\<rparr>]\<rparr> \<and>
   getLLMConfig 1 (config_state (Some 5) [plain_widget ''api_key'' (JStr ''sk-1'')]) = Some [] \<and>
   map_of (sendAction_payload 1 (config_state (Some 5) [plain_widget ''api_key'' (JStr ''sk-1'')]))
     ''llm_config'' = Some (JObj [])"
proof -
  let ?s = "config_state (Some 5) [plain_widget ''api_key'' (JStr ''sk-1'')]"
  have o: "config_origin ?s 1 =
     Some \<lparr>n_widgets = Some [plain_widget ''api_key'' (JStr ''sk-1'')], n_inputs = None,
           n_outputs = Some [\<lparr>o_links = Some [5]\<rparr>]\<rparr>"
    by (simp add: config_origin_def config_state_def empty_state_def)
  have g: "getLLMConfig 1 ?s = Some []"
    by (simp add: getLLMConfig_def config_state_def empty_state_def collect_config_def
        copy_field_def find_widget_def plain_widget_def)
  from o g payload_llm_config_Some[OF g] show ?thesis by simp
qed

text \<open>
  C5. When the \<^verbatim>\<open>llm_config\<close> input slot is absent or unconnected, or its link or
  origin node does not resolve, \<^verbatim>\<open>getLLMConfig\<close> returns nothing and the dispatcher
  adds no \<^verbatim>\<open>llm_config\<close> key to the payload (the node having no widget of that name
  to copy). When the input links to an origin node that has the widgets \<^verbatim>\<open>provider\<close>
  and \<^verbatim>\<open>model_name\<close> and none of the other fields the resolver copies, the record is
  exactly those two keys with the widgets' values. Link ids are positive, as the host
  numbers them.
\<close>

theorem getLLMConfig_absent_or_exact:
  "(config_origin s nid = None \<longrightarrow>
      getLLMConfig nid s = None \<and>
      (widget_at s nid ''llm_config'' = None \<longrightarrow>
         map_of (sendAction_payload nid s) ''llm_config'' = None)) \<and>
   (config_origin s nid = Some src \<and> config_link s nid \<noteq> Some 0 \<and>
    find_widget ''provider'' (n_widgets src) = Some wp \<and>
    find_widget ''model_name'' (n_widgets src) = Some wm \<and>
    find_widget ''base_url'' (n_widgets src) = None \<and>
    find_widget ''temperature'' (n_widgets src) = None \<and>
    find_widget ''top_p'' (n_widgets src) = None \<and>
    find_widget ''max_new_tokens'' (n_widgets src) = None \<and>
    find_widget ''hf_token'' (n_widgets src) = None \<longrightarrow>
      getLLMConfig nid s = Some [(''provider'', w_value wp), (''model_name'', w_value wm)])"
proof (intro conjI impI)
  assume "config_origin s nid = None"
  then show "getLLMConfig nid s = None" by (rule getLLMConfig_None)
next
  assume "config_origin s nid = None" "widget_at s nid ''llm_config'' = None"
  then show "map_of (sendAction_payload nid s) ''llm_config'' = None"
    by (simp add: payload_llm_config getLLMConfig_None)
next
  assume "config_origin s nid = Some src \<and> config_link s nid \<noteq> Some 0 \<and>
    find_widget ''provider'' (n_widgets src) = Some wp \<and>
    find_widget ''model_name'' (n_widgets src) = Some wm \<and>
    find_widget ''base_url'' (n_widgets src) = None \<and>
    find_widget ''temperature'' (n_widgets src) = None \<and>
    find_widget ''top_p'' (n_widgets src) = None \<and>
    find_widget ''max_new_tokens'' (n_widgets src) = None \<and>
    find_widget ''hf_token'' (n_widgets src) = None"
  then show "getLLMConfig nid s = Some [(''provider'', w_value wp), (''model_name'', w_value wm)]"
    by (simp add: getLLMConfig_resolved collect_config_two)
qed

theorem getLLMConfig_absent_or_exact_witness:
  "config_origin (config_state None []) 1 = None \<and>
   getLLMConfig 1 (config_state None []) = None \<and>
   widget_at (config_state None []) 1 ''llm_config'' = None \<and>
   map_of (sendAction_payload 1 (config_state None [])) ''llm_config'' = None \<and>
   config_link
     (config_state (Some 5)
        [plain_widget ''provider'' (JStr ''ollama''), plain_widget ''model_name'' (JStr ''llama3'')])
     1 = Some 5 \<and>
   getLLMConfig 1
     (config_state (Some 5)
        [plain_widget ''provider'' (JStr ''ollama''), plain_widget ''model_name'' (JStr ''llama3'')]) =
     Some [(''provider'', JStr ''ollama''), (''model_name'', JStr ''llama3'')]"
proof -
  let ?s0 = "config_state None []"
  let ?ws = "[plain_widget ''provider'' (JStr ''ollama''), plain_widget ''model_name'' (JStr ''llama3'')]"
  let ?s1 = "config_state (Some 5) ?ws"
  let ?src = "\<lparr>n_widgets = Some ?ws, n_inputs = None, n_outputs = Some [\<lparr>o_links = Some [5]\<rparr>]\<rparr>"
  have a: "config_origin ?s0 1 = None"
    by (simp add: config_origin_def config_state_def empty_state_def)
  have b: "widget_at ?s0 1 ''llm_config'' = None"
    by (simp add: widget_at_def node_widgets_def config_state_def empty_state_def
        find_widget_def chat_widgets_def plain_widget_def)
  have c: "config_origin ?s1 1 = Some ?src"
    by (simp add: config_origin_def config_state_def empty_state_def)
  have d: "config_link ?s1 1 = Some 5"
    by (simp add: config_link_def config_state_def empty_state_def)
  have e: "find_widget ''provider'' (n_widgets ?src) = Some (plain_widget ''provider'' (JStr ''ollama''))"
    "find_widget ''model_name'' (n_widgets ?src) = Some (plain_widget ''model_name'' (JStr ''llama3''))"
    "find_widget ''base_url'' (n_widgets ?src) = None"
    "find_widget ''temperature'' (n_widgets ?src) = None"
    "find_widget ''top_p'' (n_widgets ?src) = None"
    "find_widget ''max_new_tokens'' (n_widgets ?src) = None"
    "find_widget ''hf_token'' (n_widgets ?src) = None"
    by (simp_all add: find_widget_def plain_widget_def)
  from getLLMConfig_absent_or_exact[of ?s0 1 ?src] a b
  have f: "getLLMConfig 1 ?s0 = None \<and> map_of (sendAction_payload 1 ?s0) ''llm_config'' = None"
    by simp
  from getLLMConfig_absent_or_exact[of ?s1 1 ?src
       "plain_widget ''provider'' (JStr ''ollama'')" "plain_widget ''model_name'' (JStr ''llama3'')"]
    c d e
  have g: "getLLMConfig 1 ?s1 = Some [(''provider'', JStr ''ollama''), (''model_name'', JStr ''llama3'')]"
    by (simp add: plain_widget_def)
  from a b d f g show ?thesis by simp
qed

text \<open>
  C10. When the \<^verbatim>\<open>llm_config\<close> input is connected and its link and origin node
  resolve, but the origin node has none of the widgets the resolver copies,
  \<^verbatim>\<open>getLLMConfig\<close> returns an empty record, not nothing, and the payload has an
  \<^verbatim>\<open>llm_config\<close> key bound to an empty object. Link ids are positive, as the host
  numbers them.
\<close>

theorem getLLMConfig_empty_record:
  assumes "config_origin s nid = Some src" and "config_link s nid \<noteq> Some 0"
    and "find_widget ''provider'' (n_widgets src) = None"
    and "find_widget ''base_url'' (n_widgets src) = None"
    and "find_widget ''model_name'' (n_widgets src) = None"
    and "find_widget ''temperature'' (n_widgets src) = None"
    and "find_widget ''top_p'' (n_widgets src) = None"
    and "find_widget ''max_new_tokens'' (n_widgets src) = None"
    and "find_widget ''hf_token'' (n_widgets src) = None"
  shows "getLLMConfig nid s = Some [] \<and>
         map_of (sendAction_payload nid s) ''llm_config'' = Some (JObj [])"
proof -
  have "getLLMConfig nid s = Some []"
    using assms by (simp add: getLLMConfig_resolved collect_config_none)
  then show ?thesis by (simp add: payload_llm_config_Some)
qed

theorem getLLMConfig_empty_record_witness:
  "config_origin (config_state (Some 5) [plain_widget ''seed'' (JNum 7)]) 1 =
     Some \<lparr>n_widgets = Some [plain_widget ''seed'' (JNum 7)], n_inputs = None,
           n_outputs = Some [\<lparr>o_links = Some [5]\<rparr>]\<rparr> \<and>
   config_link (config_state (Some 5) [plain_widget ''seed'' (JNum 7)]) 1 = Some 5 \<and>
   getLLMConfig 1 (config_state (Some 5) [plain_widget ''seed'' (JNum 7)]) = Some [] \<and>
   map_of (sendAction_payload 1 (config_state (Some 5) [plain_widget ''seed'' (JNum 7)]))
     ''llm_config'' = Some (JObj [])"
proof -
  let ?ws = "[plain_widget ''seed'' (JNum 7)]"
  let ?s = "config_state (Some 5) ?ws"
  let ?src = "\<lparr>n_widgets = Some ?ws, n_inputs = None, n_outputs = Some [\<lparr>o_links = Some [5]\<rparr>]\<rparr>"
  have c: "config_origin ?s 1 = Some ?src"
    by (simp add: config_origin_def config_state_def empty_state_def)
  have d: "config_link ?s 1 = Some 5"
    by (simp add: config_link_def config_state_def empty_state_def)
  have d': "config_link ?s 1 \<noteq> Some 0" unfolding d by simp
  have e: "find_widget ''provider'' (n_widgets ?src) = None"
    "find_widget ''base_url'' (n_widgets ?src) = None"
    "find_widget ''model_name'' (n_widgets ?src) = None"
    "find_widget ''temperature'' (n_widgets ?src) = None"
    "find_widget ''top_p'' (n_widgets ?src) = None"
    "find_widget ''max_new_tokens'' (n_widgets ?src) = None"
    "find_widget ''hf_token'' (n_widgets ?src) = None"
    by (simp_all add: find_widget_def plain_widget_def)
  from getLLMConfig_empty_record[OF c d' e] c d show ?thesis by simp
qed

lemma fold_deliver_resolved_only:
  "fold (deliver v) ls s = fold (deliver v) (filter (\<lambda>l. consumer s l \<noteq> None) ls) s"
proof (induction ls arbitrary: s)
  case Nil
  then show ?case by simp
next
  case (Cons l ls)
  show ?case
  proof (cases "consumer s l")
    case None
    then show ?thesis using Cons.IH[of s] by (simp add: deliver_unresolved)
  next
    case (Some c)
    then show ?thesis using Cons.IH[of "deliver v l s"] by simp
  qed
qed

section \<open>Output propagation: claims\<close>

text \<open>
  C6. For every call \<^verbatim>\<open>propagateOutput(node, slotIndex, value)\<close>: a link of the slot
  whose link record, target node, target input, widget binding or named widget does
  not resolve is skipped (the call does what it does on the resolvable links alone;
  \<^verbatim>\<open>propagateOutput\<close> has no throwing branch, every dereference being guarded), and
  every resolvable consumer widget of the slot holds the value afterwards, whatever
  other links the slot has.
\<close>

theorem propagateOutput_best_effort:
  "propagateOutput nid slot v s =
     fold (deliver v) (filter (\<lambda>l. consumer s l \<noteq> None) (slot_links s nid slot)) s \<and>
   (\<forall>l \<in> set (slot_links s nid slot). consumer s l = None \<longrightarrow> deliver v l s = s) \<and>
   (\<forall>c \<in> set (consumers s nid slot).
      widget_value (propagateOutput nid slot v s) (fst c) (snd c) = Some v)"
proof (intro conjI ballI impI)
  show "propagateOutput nid slot v s =
     fold (deliver v) (filter (\<lambda>l. consumer s l \<noteq> None) (slot_links s nid slot)) s"
    unfolding propagateOutput_def by (rule fold_deliver_resolved_only)
next
  fix l assume "consumer s l = None"
  then show "deliver v l s = s" by (rule deliver_unresolved)
next
  fix c assume "c \<in> set (consumers s nid slot)"
  then show "widget_value (propagateOutput nid slot v s) (fst c) (snd c) = Some v"
    by (simp add: widget_value_propagateOutput)
qed

lemma demo_consumers:
  "slot_links demo_state 2 0 = [12, 99, 11]"
  "slot_links demo_state 2 (Suc 0) = [13]"
  "consumer demo_state 12 = None"
  "consumer demo_state 99 = None"
  "consumer demo_state 11 = Some (3, ''text'')"
  "consumer demo_state 13 = Some (5, ''history'')"
  by (simp_all add: slot_links_def consumer_def demo_state_def empty_state_def nth_opt_def
      find_widget_def plain_widget_def)

lemma demo_consumers_list:
  "consumers demo_state 2 0 = [(3, ''text'')]"
  "consumers demo_state 2 (Suc 0) = [(5, ''history'')]"
  by (simp_all add: consumers_def demo_consumers map_filter_simps)

theorem propagateOutput_best_effort_witness:
  "slot_links demo_state 2 0 = [12, 99, 11] \<and>
   consumer demo_state 12 = None \<and> consumer demo_state 99 = None \<and>
   deliver (JStr ''reply'') 12 demo_state = demo_state \<and>
   deliver (JStr ''reply'') 99 demo_state = demo_state \<and>
   consumers demo_state 2 0 = [(3, ''text'')] \<and>
   widget_value demo_state 3 ''text'' = Some (JStr ''old'') \<and>
   widget_value (propagateOutput 2 0 (JStr ''reply'') demo_state) 3 ''text'' = Some (JStr ''reply'')"
proof -
  have v: "widget_value demo_state 3 ''text'' = Some (JStr ''old'')"
    by (simp add: widget_value_def widget_at_def node_widgets_def demo_state_def empty_state_def
        find_widget_def plain_widget_def)
  note t = propagateOutput_best_effort[of 2 0 "JStr ''reply''" demo_state]
  from t have skip: "\<forall>l \<in> set (slot_links demo_state 2 0). consumer demo_state l = None \<longrightarrow>
      deliver (JStr ''reply'') l demo_state = demo_state"
    by (elim conjE)
  from t have got: "\<forall>c \<in> set (consumers demo_state 2 0).
      widget_value (propagateOutput 2 0 (JStr ''reply'') demo_state) (fst c) (snd c) =
        Some (JStr ''reply'')"
    by (elim conjE)
  from skip have "deliver (JStr ''reply'') 12 demo_state = demo_state"
    and "deliver (JStr ''reply'') 99 demo_state = demo_state"
    by (simp_all add: demo_consumers)
  moreover from got
  have "widget_value (propagateOutput 2 0 (JStr ''reply'') demo_state) 3 ''text'' =
        Some (JStr ''reply'')"
    by (simp add: demo_consumers_list)
  ultimately show ?thesis
    using v by (simp add: demo_consumers demo_consumers_list)
qed

text \<open>
  C7 as stated fails: on the graph with a link from output slot 0 of node 2 back to
  the input of node 2 that is bound to its \<^verbatim>\<open>user_message\<close> widget, the call writes that
  widget of the source node.
\<close>

theorem propagateOutput_writes_source_on_loop:
  "widget_value loop_state 2 ''user_message'' = Some (JStr ''hello'') \<and>
   widget_value (propagateOutput 2 0 (JStr ''reply'') loop_state) 2 ''user_message'' =
     Some (JStr ''reply'')"
proof -
  have "consumers loop_state 2 0 = [(2, ''user_message'')]"
    by (simp add: consumers_def slot_links_def consumer_def loop_state_def empty_state_def
        nth_opt_def find_widget_def chat_widgets_def plain_widget_def map_filter_simps)
  moreover have "widget_value loop_state 2 ''user_message'' = Some (JStr ''hello'')"
    by (simp add: widget_value_def widget_at_def node_widgets_def loop_state_def empty_state_def
        find_widget_def chat_widgets_def plain_widget_def)
  ultimately show ?thesis by (simp add: widget_value_propagateOutput)
qed

text \<open>
  C7, amended. For every call \<^verbatim>\<open>propagateOutput(node, slotIndex, value)\<close>: the link
  table and the inputs and outputs of every node, the source node included, stay as
  they are; a node that no link of the slot resolves to a widget of stays as it is
  altogether, so the source node stays as it is unless a link of the slot leads back
  to one of its own widgets.
\<close>

theorem propagateOutput_frame:
  "graph_links (propagateOutput nid slot v s) = graph_links s \<and>
   (\<forall>k. map_option n_inputs (graph_nodes (propagateOutput nid slot v s) k) =
          map_option n_inputs (graph_nodes s k) \<and>
        map_option n_outputs (graph_nodes (propagateOutput nid slot v s) k) =
          map_option n_outputs (graph_nodes s k)) \<and>
   (\<forall>k. k \<notin> fst ` set (consumers s nid slot) \<longrightarrow>
        graph_nodes (propagateOutput nid slot v s) k = graph_nodes s k) \<and>
   (nid \<notin> fst ` set (consumers s nid slot) \<longrightarrow>
        graph_nodes (propagateOutput nid slot v s) nid = graph_nodes s nid)"
proof -
  have sk: "skeleton (propagateOutput nid slot v s) = skeleton s" by simp
  show ?thesis
    using skeleton_links[OF sk] skeleton_inputs[OF sk] skeleton_outputs[OF sk]
    by (simp add: graph_nodes_propagateOutput_other)
qed

theorem propagateOutput_frame_witness:
  "consumers demo_state 2 0 = [(3, ''text'')] \<and>
   graph_links (propagateOutput 2 0 (JStr ''reply'') demo_state) = graph_links demo_state \<and>
   map_option n_inputs (graph_nodes (propagateOutput 2 0 (JStr ''reply'') demo_state) 3) =
     map_option n_inputs (graph_nodes demo_state 3) \<and>
   graph_nodes (propagateOutput 2 0 (JStr ''reply'') demo_state) 4 = graph_nodes demo_state 4 \<and>
   graph_nodes (propagateOutput 2 0 (JStr ''reply'') demo_state) 2 = graph_nodes demo_state 2"
proof -
  have a: "(2::nat) \<notin> fst ` set (consumers demo_state 2 0)"
    and b: "(4::nat) \<notin> fst ` set (consumers demo_state 2 0)"
    by (simp_all add: demo_consumers_list)
  from propagateOutput_frame[of 2 0 "JStr ''reply''" demo_state] a b
  show ?thesis
    by (simp add: demo_consumers_list)
qed

lemma new_events_append: "trace s' = trace s @ es \<Longrightarrow> new_events s s' = es"
  by (simp add: new_events_def)

lemma loop_store_facts:
  "consumers loop_store_state 2 0 = [(2, ''history_preview'')]"
  "consumers loop_store_state 2 (Suc 0) = []"
  "widget_value loop_store_state 2 ''history_preview'' = Some (JStr [])"
  "chat_ready loop_store_state 2"
  by (simp_all add: consumers_def slot_links_def consumer_def chat_ready_def widget_value_def
      widget_at_def node_widgets_def loop_store_state_def empty_state_def nth_opt_def
      find_widget_def chat_widgets_def plain_widget_def map_filter_simps)

section \<open>Action dispatcher: claims\<close>

text \<open>
  C1 as stated fails: on the graph with a link from output slot 0 of the chat node 2
  back to the input of node 2 that is bound to its \<^verbatim>\<open>history_preview\<close> widget, a dispatch
  that the backend answers with \<^verbatim>\<open>assistant_response = "hi"\<close> and
  \<^verbatim>\<open>readable_history = "H"\<close> stores \<^verbatim>\<open>"H"\<close> in \<^verbatim>\<open>history_preview\<close> and then propagates
  \<^verbatim>\<open>"hi"\<close> over the loop into the same widget: afterwards the store holds \<^verbatim>\<open>"hi"\<close>, not
  \<^verbatim>\<open>"H"\<close>.
\<close>

theorem sendAction_loop_overwrites_store:
  "chat_ready loop_store_state 2 \<and>
   or_empty (get_prop [(''assistant_response'', JStr ''hi''), (''readable_history'', JStr ''H'')]
     ''readable_history'') = JStr ''H'' \<and>
   widget_value
     (sendAction 2
        (OkJson [(''assistant_response'', JStr ''hi''), (''readable_history'', JStr ''H'')])
        loop_store_state)
     2 ''history_preview'' = Some (JStr ''hi'') \<and>
   JStr ''hi'' \<noteq> JStr ''H''"
proof -
  have "widget_value
     (sendAction 2
        (OkJson [(''assistant_response'', JStr ''hi''), (''readable_history'', JStr ''H'')])
        loop_store_state)
     2 ''history_preview'' = Some (JStr ''hi'')"
    by (simp add: sendAction_unfold sendAction_response_def Let_def widget_value_write
        widget_value_propagateOutput widget_value_setWidgetValue loop_store_facts
        or_empty_def get_prop_def)
  then show ?thesis
    by (simp add: loop_store_facts or_empty_def get_prop_def)
qed

text \<open>
  C1, amended. A dispatch on a chat node (set up, so that it has its status widget and
  its two stores) whose backend call succeeds with the fields \<^verbatim>\<open>assistant_response\<close>
  and \<^verbatim>\<open>readable_history\<close> (\<open>r\<close> and \<open>h\<close>, an absent field read as the empty string)
  leaves the status \<^verbatim>\<open>"done"\<close>, assigns \<open>r\<close> to every resolvable consumer widget of
  output slot 0 and \<open>h\<close> to every resolvable consumer widget of output slot 1. When no
  link of these two slots leads back to a widget of the node itself, the two stores
  hold \<open>r\<close> and \<open>h\<close> afterwards, every consumer widget of slot 1 holds \<open>h\<close> and every
  consumer widget of slot 0 that is not also one of slot 1 holds \<open>r\<close>, and
  \<^verbatim>\<open>user_message\<close> is cleared exactly when the selected action is \<^verbatim>\<open>"send"\<close> and the value
  of \<^verbatim>\<open>auto_clear_input\<close> is truthy.
\<close>

theorem sendAction_success:
  assumes "chat_ready s nid"
    and "r = or_empty (get_prop data ''assistant_response'')"
    and "h = or_empty (get_prop data ''readable_history'')"
    and "s' = sendAction nid (OkJson data) s"
  shows "widget_value s' nid ''status'' = Some (JStr ''done'') \<and>
         (\<forall>c \<in> set (consumers s nid 0). delivered (new_events s s') (fst c) (snd c) r) \<and>
         (\<forall>c \<in> set (consumers s nid 1). delivered (new_events s s') (fst c) (snd c) h) \<and>
         (nid \<notin> fst ` set (consumers s nid 0) \<and> nid \<notin> fst ` set (consumers s nid 1) \<longrightarrow>
            widget_value s' nid ''assistant_response_preview'' = Some r \<and>
            widget_value s' nid ''history_preview'' = Some h \<and>
            (\<forall>c \<in> set (consumers s nid 0).
               c \<notin> set (consumers s nid 1) \<longrightarrow> widget_value s' (fst c) (snd c) = Some r) \<and>
            (\<forall>c \<in> set (consumers s nid 1). widget_value s' (fst c) (snd c) = Some h) \<and>
            widget_value s' nid ''user_message'' =
              (if selected_action s nid = JStr ''send'' \<and> truthy (autoClear s nid)
               then map_option (\<lambda>x. JStr []) (widget_value s nid ''user_message'')
               else widget_value s nid ''user_message''))"
proof -
  have ok: "postJSON (OkJson data) = Returned data" by simp
  from assms(1) obtain y z where
    st: "widget_at s nid ''status'' \<noteq> None"
    and y: "widget_value s nid ''history_preview'' = Some y"
    and z: "widget_value s nid ''assistant_response_preview'' = Some z"
    by (auto simp: chat_ready_def widget_value_def)
  from sendAction_returned_trace[OF ok, of nid s, folded assms(2,3,4)] obtain es0 es1 es2 where
    tr: "trace s' =
       trace s @
         [EvWrite nid ''status'' (JStr (''working: '' @ to_str (selected_action s nid) @ ''...''))
            (has_callback s nid ''status''),
          EvDirty nid,
          EvWrite nid ''assistant_response_preview'' r
            (has_callback s nid ''assistant_response_preview''),
          EvWrite nid ''history_preview'' h (has_callback s nid ''history_preview'')] @
         es0 @ es1 @ es2 @
         [EvWrite nid ''status'' (JStr ''done'') (has_callback s nid ''status''), EvDirty nid]"
    and d0: "\<forall>c \<in> set (consumers s nid 0). delivered es0 (fst c) (snd c) r"
    and d1: "\<forall>c \<in> set (consumers s nid 1). delivered es1 (fst c) (snd c) h"
    by blast
  have ne: "new_events s s' =
         [EvWrite nid ''status'' (JStr (''working: '' @ to_str (selected_action s nid) @ ''...''))
            (has_callback s nid ''status''),
          EvDirty nid,
          EvWrite nid ''assistant_response_preview'' r
            (has_callback s nid ''assistant_response_preview''),
          EvWrite nid ''history_preview'' h (has_callback s nid ''history_preview'')] @
         es0 @ es1 @ es2 @
         [EvWrite nid ''status'' (JStr ''done'') (has_callback s nid ''status''), EvDirty nid]"
    by (rule new_events_append) (rule tr)
  have e0: "delivered es0 k nm v \<Longrightarrow> delivered (new_events s s') k nm v" for k nm v
    unfolding ne by (auto simp: delivered_def)
  have e1: "delivered es1 k nm v \<Longrightarrow> delivered (new_events s s') k nm v" for k nm v
    unfolding ne by (auto simp: delivered_def)
  have status: "widget_value s' nid ''status'' = Some (JStr ''done'')"
    unfolding assms(4) by (rule sendAction_returned_status[OF ok st])
  have ev0: "\<forall>c \<in> set (consumers s nid 0). delivered (new_events s s') (fst c) (snd c) r"
    using d0 by (auto intro: e0)
  have ev1: "\<forall>c \<in> set (consumers s nid 1). delivered (new_events s s') (fst c) (snd c) h"
    using d1 by (auto intro: e1)
  have final: "widget_value s' nid ''assistant_response_preview'' = Some r \<and>
            widget_value s' nid ''history_preview'' = Some h \<and>
            (\<forall>c \<in> set (consumers s nid 0).
               c \<notin> set (consumers s nid 1) \<longrightarrow> widget_value s' (fst c) (snd c) = Some r) \<and>
            (\<forall>c \<in> set (consumers s nid 1). widget_value s' (fst c) (snd c) = Some h) \<and>
            widget_value s' nid ''user_message'' =
              (if selected_action s nid = JStr ''send'' \<and> truthy (autoClear s nid)
               then map_option (\<lambda>x. JStr []) (widget_value s nid ''user_message'')
               else widget_value s nid ''user_message'')"
    if n0: "nid \<notin> fst ` set (consumers s nid 0)" and n1: "nid \<notin> fst ` set (consumers s nid 1)"
  proof -
    note vals = sendAction_returned_values[OF ok n0 n1, folded assms(2,3,4)]
    show ?thesis
    proof (intro conjI ballI impI)
      show "widget_value s' nid ''assistant_response_preview'' = Some r"
        by (simp add: vals(1) z)
      show "widget_value s' nid ''history_preview'' = Some h"
        by (simp add: vals(2) y)
      show "widget_value s' nid ''user_message'' =
             (if selected_action s nid = JStr ''send'' \<and> truthy (autoClear s nid)
              then map_option (\<lambda>x. JStr []) (widget_value s nid ''user_message'')
              else widget_value s nid ''user_message'')"
        by (rule vals(4))
    next
      fix c assume "c \<in> set (consumers s nid 0)" "c \<notin> set (consumers s nid 1)"
      then show "widget_value s' (fst c) (snd c) = Some r" by (rule vals(6))
    next
      fix c assume "c \<in> set (consumers s nid 1)"
      then show "widget_value s' (fst c) (snd c) = Some h" by (rule vals(5))
    qed
  qed
  from status ev0 ev1 final show ?thesis by blast
qed

lemma demo_values:
  "widget_value demo_state 2 ''user_message'' = Some (JStr ''hello'')"
  "widget_value demo_state 2 ''status'' = Some (JStr ''idle'')"
  "widget_value demo_state 2 ''history_preview'' = Some (JStr [])"
  "widget_value demo_state 2 ''assistant_response_preview'' = Some (JStr [])"
  "widget_value demo_state 3 ''text'' = Some (JStr ''old'')"
  "widget_value demo_state 5 ''history'' = Some (JStr [])"
  "selected_action demo_state 2 = JStr ''send''"
  "autoClear demo_state 2 = JBool True"
  by (simp_all add: selected_action_def autoClear_def widget_value_def widget_at_def
      node_widgets_def demo_state_def empty_state_def find_widget_def chat_widgets_def
      plain_widget_def)

lemma demo_ready: "chat_ready demo_state 2"
  by (simp add: chat_ready_def widget_at_def node_widgets_def demo_state_def empty_state_def
      find_widget_def chat_widgets_def plain_widget_def)

theorem sendAction_success_witness:
  "chat_ready demo_state 2 \<and>
   consumers demo_state 2 0 = [(3, ''text'')] \<and>
   consumers demo_state 2 1 = [(5, ''history'')] \<and>
   delivered
     (new_events demo_state
        (sendAction 2 (OkJson [(''readable_history'', JStr ''User: hello'')]) demo_state))
     3 ''text'' (JStr []) \<and>
   delivered
     (new_events demo_state
        (sendAction 2 (OkJson [(''readable_history'', JStr ''User: hello'')]) demo_state))
     5 ''history'' (JStr ''User: hello'') \<and>
   widget_value (sendAction 2 (OkJson [(''readable_history'', JStr ''User: hello'')]) demo_state)
     2 ''assistant_response_preview'' = Some (JStr []) \<and>
   widget_value (sendAction 2 (OkJson [(''readable_history'', JStr ''User: hello'')]) demo_state)
     2 ''history_preview'' = Some (JStr ''User: hello'') \<and>
   widget_value (sendAction 2 (OkJson [(''readable_history'', JStr ''User: hello'')]) demo_state)
     3 ''text'' = Some (JStr []) \<and>
   widget_value (sendAction 2 (OkJson [(''readable_history'', JStr ''User: hello'')]) demo_state)
     5 ''history'' = Some (JStr ''User: hello'') \<and>
   widget_value (sendAction 2 (OkJson [(''readable_history'', JStr ''User: hello'')]) demo_state)
     2 ''status'' = Some (JStr ''done'') \<and>
   widget_value demo_state 2 ''user_message'' = Some (JStr ''hello'') \<and>
   widget_value (sendAction 2 (OkJson [(''readable_history'', JStr ''User: hello'')]) demo_state)
     2 ''user_message'' = Some (JStr [])"
proof -
  let ?data = "[(''readable_history'', JStr ''User: hello'')]"
  have c0: "consumers demo_state 2 0 = [(3, ''text'')]"
    and c1: "consumers demo_state 2 1 = [(5, ''history'')]"
    by (simp_all add: demo_consumers_list)
  have n0: "(2::nat) \<notin> fst ` set (consumers demo_state 2 0)"
    and n1: "(2::nat) \<notin> fst ` set (consumers demo_state 2 1)"
    unfolding c0 c1 by simp_all
  have r: "JStr [] = or_empty (get_prop ?data ''assistant_response'')"
    and h: "JStr ''User: hello'' = or_empty (get_prop ?data ''readable_history'')"
    by (simp_all add: or_empty_def get_prop_def)
  note t = sendAction_success[OF demo_ready r h refl]
  from t have e: "widget_value (sendAction 2 (OkJson ?data) demo_state) 2 ''status'' =
      Some (JStr ''done'')" by (elim conjE)
  from t have imp: "2 \<notin> fst ` set (consumers demo_state 2 0) \<and>
        2 \<notin> fst ` set (consumers demo_state 2 1) \<longrightarrow>
        widget_value (sendAction 2 (OkJson ?data) demo_state) 2 ''assistant_response_preview'' =
          Some (JStr []) \<and>
        widget_value (sendAction 2 (OkJson ?data) demo_state) 2 ''history_preview'' =
          Some (JStr ''User: hello'') \<and>
        (\<forall>c \<in> set (consumers demo_state 2 0).
           c \<notin> set (consumers demo_state 2 1) \<longrightarrow>
           widget_value (sendAction 2 (OkJson ?data) demo_state) (fst c) (snd c) =
             Some (JStr [])) \<and>
        (\<forall>c \<in> set (consumers demo_state 2 1).
           widget_value (sendAction 2 (OkJson ?data) demo_state) (fst c) (snd c) =
             Some (JStr ''User: hello'')) \<and>
        widget_value (sendAction 2 (OkJson ?data) demo_state) 2 ''user_message'' =
          (if selected_action demo_state 2 = JStr ''send'' \<and> truthy (autoClear demo_state 2)
           then map_option (\<lambda>x. JStr []) (widget_value demo_state 2 ''user_message'')
           else widget_value demo_state 2 ''user_message'')"
    by (elim conjE)
  from imp n0 n1 have fin:
       "widget_value (sendAction 2 (OkJson ?data) demo_state) 2 ''assistant_response_preview'' =
          Some (JStr []) \<and>
        widget_value (sendAction 2 (OkJson ?data) demo_state) 2 ''history_preview'' =
          Some (JStr ''User: hello'') \<and>
        (\<forall>c \<in> set (consumers demo_state 2 0).
           c \<notin> set (consumers demo_state 2 1) \<longrightarrow>
           widget_value (sendAction 2 (OkJson ?data) demo_state) (fst c) (snd c) =
             Some (JStr [])) \<and>
        (\<forall>c \<in> set (consumers demo_state 2 1).
           widget_value (sendAction 2 (OkJson ?data) demo_state) (fst c) (snd c) =
             Some (JStr ''User: hello'')) \<and>
        widget_value (sendAction 2 (OkJson ?data) demo_state) 2 ''user_message'' =
          (if selected_action demo_state 2 = JStr ''send'' \<and> truthy (autoClear demo_state 2)
           then map_option (\<lambda>x. JStr []) (widget_value demo_state 2 ''user_message'')
           else widget_value demo_state 2 ''user_message'')"
    by blast
  from fin have a: "widget_value (sendAction 2 (OkJson ?data) demo_state)
     2 ''assistant_response_preview'' = Some (JStr [])" by (elim conjE)
  from fin have b: "widget_value (sendAction 2 (OkJson ?data) demo_state)
     2 ''history_preview'' = Some (JStr ''User: hello'')" by (elim conjE)
  from fin have "\<forall>c \<in> set (consumers demo_state 2 0).
           c \<notin> set (consumers demo_state 2 1) \<longrightarrow>
           widget_value (sendAction 2 (OkJson ?data) demo_state) (fst c) (snd c) =
             Some (JStr [])"
    by (elim conjE)
  then have c: "widget_value (sendAction 2 (OkJson ?data) demo_state) 3 ''text'' = Some (JStr [])"
    unfolding c0 c1 by simp
  from fin have "\<forall>c \<in> set (consumers demo_state 2 1).
           widget_value (sendAction 2 (OkJson ?data) demo_state) (fst c) (snd c) =
             Some (JStr ''User: hello'')"
    by (elim conjE)
  then have d: "widget_value (sendAction 2 (OkJson ?data) demo_state) 5 ''history'' =
      Some (JStr ''User: hello'')"
    unfolding c1 by simp
  from fin have "widget_value (sendAction 2 (OkJson ?data) demo_state) 2 ''user_message'' =
           (if selected_action demo_state 2 = JStr ''send'' \<and> truthy (autoClear demo_state 2)
            then map_option (\<lambda>x. JStr []) (widget_value demo_state 2 ''user_message'')
            else widget_value demo_state 2 ''user_message'')"
    by (elim conjE)
  then have f: "widget_value (sendAction 2 (OkJson ?data) demo_state) 2 ''user_message'' =
      Some (JStr [])"
    by (simp add: demo_values)
  from t have "\<forall>c \<in> set (consumers demo_state 2 0).
      delivered (new_events demo_state (sendAction 2 (OkJson ?data) demo_state))
        (fst c) (snd c) (JStr [])"
    by (elim conjE)
  then have g: "delivered (new_events demo_state (sendAction 2 (OkJson ?data) demo_state))
      3 ''text'' (JStr [])"
    unfolding c0 by simp
  from t have "\<forall>c \<in> set (consumers demo_state 2 1).
      delivered (new_events demo_state (sendAction 2 (OkJson ?data) demo_state))
        (fst c) (snd c) (JStr ''User: hello'')"
    by (elim conjE)
  then have k: "delivered (new_events demo_state (sendAction 2 (OkJson ?data) demo_state))
      5 ''history'' (JStr ''User: hello'')"
    unfolding c1 by simp
  from demo_ready c0 c1 g k a b c d e f demo_values(1) show ?thesis by (intro conjI)
qed

text \<open>
  C2. A dispatch whose backend call fails, with a response that is not ok and has the
  body text \<open>m\<close> or with a transport error of message \<open>m\<close>, leaves the status
  \<^verbatim>\<open>"error: "\<close> followed by \<open>m\<close>; the only assignments it makes are the two to the
  status widget of the node, so nothing is propagated, \<^verbatim>\<open>user_message\<close> and the two
  stores keep their values, and every other node, the link table and the modal stay as
  they are.
\<close>

theorem sendAction_failure:
  assumes "fr = NotOk m \<or> fr = TransportError m"
    and "widget_at s nid ''status'' \<noteq> None"
    and "s' = sendAction nid fr s"
  shows "widget_value s' nid ''status'' = Some (JStr (''error: '' @ m)) \<and>
         (\<forall>k nm. (k, nm) \<noteq> (nid, ''status'') \<longrightarrow> widget_at s' k nm = widget_at s k nm) \<and>
         (\<forall>k. k \<noteq> nid \<longrightarrow> graph_nodes s' k = graph_nodes s k) \<and>
         graph_nodes s' nid =
           map_option
             (\<lambda>n. n\<lparr>n_widgets :=
                      map_option
                        (upd_first ''status'' (\<lambda>w. w\<lparr>w_value := JStr (''error: '' @ m)\<rparr>))
                        (n_widgets n)\<rparr>)
             (graph_nodes s nid) \<and>
         graph_links s' = graph_links s \<and>
         historyModal s' = historyModal s \<and>
         new_events s s' =
           [EvWrite nid ''status''
              (JStr (''working: '' @ to_str (selected_action s nid) @ ''...''))
              (has_callback s nid ''status''),
            EvDirty nid,
            EvWrite nid ''status'' (JStr (''error: '' @ m)) (has_callback s nid ''status''),
            EvDirty nid]"
proof -
  from assms(1) have th: "postJSON fr = Threw m" by auto
  from assms(2) obtain x where x: "widget_value s nid ''status'' = Some x"
    by (auto simp: widget_value_def)
  have 1: "widget_value (sendAction nid fr s) nid ''status'' = Some (JStr (''error: '' @ m))"
    by (simp add: sendAction_threw_value[OF th] x)
  have 2: "\<forall>k nm. (k, nm) \<noteq> (nid, ''status'') \<longrightarrow>
             widget_at (sendAction nid fr s) k nm = widget_at s k nm"
    using sendAction_threw_widget_at[OF th] by blast
  have 3: "\<forall>k. k \<noteq> nid \<longrightarrow> graph_nodes (sendAction nid fr s) k = graph_nodes s k"
    using sendAction_threw_nodes[OF th] by blast
  have 4: "new_events s (sendAction nid fr s) =
           [EvWrite nid ''status''
              (JStr (''working: '' @ to_str (selected_action s nid) @ ''...''))
              (has_callback s nid ''status''),
            EvDirty nid,
            EvWrite nid ''status'' (JStr (''error: '' @ m)) (has_callback s nid ''status''),
            EvDirty nid]"
    by (rule new_events_append) (rule sendAction_threw_trace[OF th])
  from 1 2 3 4 sendAction_threw_node[OF th, of nid s] sendAction_threw_rest(1,2)[OF th, of nid s]
  show ?thesis
    unfolding assms(3) by (intro conjI)
qed

theorem sendAction_failure_witness:
  "widget_at demo_state 2 ''status'' \<noteq> None \<and>
   widget_value (sendAction 2 (NotOk ''boom'') demo_state) 2 ''status'' =
     Some (JStr ''error: boom'') \<and>
   widget_value (sendAction 2 (NotOk ''boom'') demo_state) 3 ''text'' = Some (JStr ''old'') \<and>
   widget_value (sendAction 2 (NotOk ''boom'') demo_state) 2 ''user_message'' =
     Some (JStr ''hello'') \<and>
   widget_value (sendAction 2 (NotOk ''boom'') demo_state) 2 ''history_preview'' =
     Some (JStr []) \<and>
   graph_nodes (sendAction 2 (NotOk ''boom'') demo_state) 5 = graph_nodes demo_state 5 \<and>
   new_events demo_state (sendAction 2 (NotOk ''boom'') demo_state) =
     [EvWrite 2 ''status'' (JStr ''working: send...'') False, EvDirty 2,
      EvWrite 2 ''status'' (JStr ''error: boom'') False, EvDirty 2]"
proof -
  have st: "widget_at demo_state 2 ''status'' \<noteq> None"
    using demo_ready by (simp add: chat_ready_def)
  have hc: "has_callback demo_state 2 ''status'' = False"
    by (simp add: has_callback_def widget_at_def node_widgets_def demo_state_def empty_state_def
        find_widget_def chat_widgets_def plain_widget_def)
  note t = sendAction_failure[OF disjI1[OF refl] st refl, of "''boom''"]
  from t have a: "widget_value (sendAction 2 (NotOk ''boom'') demo_state) 2 ''status'' =
     Some (JStr ''error: boom'')" by simp
  from t have w: "\<forall>k nm. (k, nm) \<noteq> (2, ''status'') \<longrightarrow>
      widget_at (sendAction 2 (NotOk ''boom'') demo_state) k nm = widget_at demo_state k nm"
    by (elim conjE)
  from w have b: "widget_value (sendAction 2 (NotOk ''boom'') demo_state) 3 ''text'' =
      Some (JStr ''old'')"
    and c: "widget_value (sendAction 2 (NotOk ''boom'') demo_state) 2 ''user_message'' =
      Some (JStr ''hello'')"
    and d: "widget_value (sendAction 2 (NotOk ''boom'') demo_state) 2 ''history_preview'' =
      Some (JStr [])"
    using demo_values by (simp_all add: widget_value_def)
  from t have "\<forall>k. k \<noteq> 2 \<longrightarrow>
      graph_nodes (sendAction 2 (NotOk ''boom'') demo_state) k = graph_nodes demo_state k"
    by (elim conjE)
  then have e: "graph_nodes (sendAction 2 (NotOk ''boom'') demo_state) 5 = graph_nodes demo_state 5"
    by simp
  from t have f: "new_events demo_state (sendAction 2 (NotOk ''boom'') demo_state) =
     [EvWrite 2 ''status'' (JStr ''working: send...'') False, EvDirty 2,
      EvWrite 2 ''status'' (JStr ''error: boom'') False, EvDirty 2]"
    by (simp add: demo_values hc)
  from st a b c d e f show ?thesis by (intro conjI)
qed

lemma new_timers_append: "timers s' = timers s @ ts \<Longrightarrow> new_timers s s' = ts"
  by (simp add: new_timers_def)

section \<open>History viewer: claims\<close>

text \<open>
  C9. On a viewer node, whose \<^verbatim>\<open>history\<close> widget carries the callback that
  \<^verbatim>\<open>setupHistoryViewer\<close> installs, a call of that callback with a text \<open>t\<close> does this:
  when the modal is open, it is opened again with \<open>t\<close>, so it shows \<open>t\<close>, and the scroll
  of its content to the bottom is scheduled; when the modal is closed or not created,
  it stays as it is and no scroll of the modal is scheduled; in both cases the input
  element of the widget, when it has one, holds \<open>t\<close> afterwards.
\<close>

theorem history_onChange_tracks_modal:
  assumes "widget_at s nid ''history'' = Some w"
    and "w_onChange w = Some (ViewerOnChange orig)"
    and "s' = handle (FireOnChange nid ''history'' (JStr t)) s"
  shows "(isHistoryModalOpen s \<longrightarrow>
            isHistoryModalOpen s' \<and>
            map_option content_text (historyModal s') = Some t \<and>
            (\<exists>ts. new_timers s s' = ts @ [ScrollModalBottom, ScrollInputBottom nid ''history''])) \<and>
         (\<not> isHistoryModalOpen s \<longrightarrow>
            \<not> isHistoryModalOpen s' \<and> historyModal s' = historyModal s \<and>
            ScrollModalBottom \<notin> set (new_timers s s')) \<and>
         (\<forall>el. w_inputEl w = Some el \<longrightarrow>
            map_option w_inputEl (widget_at s' nid ''history'') = Some (Some t)) \<and>
         modal_identity s' = modal_identity s"
proof -
  have s': "s' = invoke (ViewerOnChange orig) nid ''history'' (JStr t) s"
    using assms by (simp add: notify_def)
  from invoke_viewer[of s orig nid "''history''" "JStr t"] obtain s1 ts where
    sk: "skeleton s1 = skeleton s"
    and op: "isHistoryModalOpen s1 = isHistoryModalOpen s"
    and cl: "\<not> isHistoryModalOpen s \<longrightarrow> historyModal s1 = historyModal s \<and>
           (\<exists>ts. timers s1 = timers s @ ts \<and> ScrollModalBottom \<notin> set ts)"
    and tm: "timers s1 = timers s @ ts"
    and mi: "modal_identity s1 = modal_identity s"
    and eq: "s' = viewer_sync nid ''history'' (JStr t) s1"
    unfolding s' by blast
  have open_case: "isHistoryModalOpen s' \<and>
            map_option content_text (historyModal s') = Some t \<and>
            (\<exists>ts. new_timers s s' = ts @ [ScrollModalBottom, ScrollInputBottom nid ''history''])"
    if o: "isHistoryModalOpen s"
  proof -
    from o op have o1: "isHistoryModalOpen s1" by simp
    from viewer_sync_open[OF o1, of nid "''history''" "JStr t"]
    have c: "map_option content_text (historyModal s') = Some t"
      and t': "timers s' = timers s @ (ts @ [ScrollModalBottom, ScrollInputBottom nid ''history''])"
      by (simp_all add: eq tm)
    from new_timers_append[OF t'] c o1 show ?thesis by (simp add: eq)
  qed
  have closed_case: "\<not> isHistoryModalOpen s' \<and> historyModal s' = historyModal s \<and>
            ScrollModalBottom \<notin> set (new_timers s s')"
    if c: "\<not> isHistoryModalOpen s"
  proof -
    from c op have c1: "\<not> isHistoryModalOpen s1" by simp
    from c cl obtain ts' where h1: "historyModal s1 = historyModal s"
      and t1: "timers s1 = timers s @ ts'" "ScrollModalBottom \<notin> set ts'"
      by auto
    from viewer_sync_closed[OF c1, of nid "''history''" "JStr t"]
    have h: "historyModal s' = historyModal s"
      and t': "timers s' = timers s @ (ts' @ [ScrollInputBottom nid ''history''])"
      by (simp_all add: eq h1 t1(1))
    from new_timers_append[OF t'] t1(2) h c1 show ?thesis by (simp add: eq)
  qed
  have input: "map_option w_inputEl (widget_at s' nid ''history'') = Some (Some t)"
    if el: "w_inputEl w = Some el" for el
  proof -
    from skeleton_has_input[OF sk assms(1) el] obtain w1 el1 where
      "widget_at s1 nid ''history'' = Some w1" "w_inputEl w1 = Some el1"
      by blast
    then show ?thesis
      by (simp add: eq widget_at_viewer_sync mirror_input_text)
  qed
  have "modal_identity s' = modal_identity s"
    by (simp add: eq mi)
  with open_case closed_case input show ?thesis by blast
qed

lemma demo_open_facts:
  "widget_at demo_open_state 5 ''history'' =
     Some \<lparr>w_name = ''history'', w_value = JStr ''A B C'',
           w_onChange = Some (ViewerOnChange None), w_inputEl = Some ''A B C''\<rparr>"
  "isHistoryModalOpen demo_open_state"
  "map_option content_text (historyModal demo_open_state) = Some ''A B C''"
  by (simp_all add: demo_open_state_def open_content getHistoryText_def widget_at_def
      node_widgets_def find_widget_def)

lemma demo_closed_facts:
  "widget_at demo_state 5 ''history'' =
     Some \<lparr>w_name = ''history'', w_value = JStr [],
           w_onChange = Some (ViewerOnChange None), w_inputEl = Some []\<rparr>"
  "\<not> isHistoryModalOpen demo_state"
  "historyModal demo_state = None"
  by (simp_all add: demo_state_def empty_state_def widget_at_def node_widgets_def
      find_widget_def isHistoryModalOpen_def)

theorem history_onChange_tracks_modal_witness:
  "isHistoryModalOpen demo_open_state \<and>
   map_option content_text (historyModal demo_open_state) = Some ''A B C'' \<and>
   isHistoryModalOpen (handle (FireOnChange 5 ''history'' (JStr ''A B C D'')) demo_open_state) \<and>
   map_option content_text
     (historyModal (handle (FireOnChange 5 ''history'' (JStr ''A B C D'')) demo_open_state)) =
     Some ''A B C D'' \<and>
   map_option w_inputEl
     (widget_at (handle (FireOnChange 5 ''history'' (JStr ''A B C D'')) demo_open_state)
        5 ''history'') = Some (Some ''A B C D'') \<and>
   \<not> isHistoryModalOpen demo_state \<and>
   historyModal (handle (FireOnChange 5 ''history'' (JStr ''A B C D'')) demo_state) = None \<and>
   map_option w_inputEl
     (widget_at (handle (FireOnChange 5 ''history'' (JStr ''A B C D'')) demo_state)
        5 ''history'') = Some (Some ''A B C D'')"
proof -
  note o = history_onChange_tracks_modal[OF demo_open_facts(1) _ refl,
      where orig = None and t = "''A B C D''"]
  note c = history_onChange_tracks_modal[OF demo_closed_facts(1) _ refl,
      where orig = None and t = "''A B C D''"]
  from o demo_open_facts(2)
  have 1: "isHistoryModalOpen (handle (FireOnChange 5 ''history'' (JStr ''A B C D'')) demo_open_state)"
    and 2: "map_option content_text
     (historyModal (handle (FireOnChange 5 ''history'' (JStr ''A B C D'')) demo_open_state)) =
     Some ''A B C D''"
    and 3: "map_option w_inputEl
     (widget_at (handle (FireOnChange 5 ''history'' (JStr ''A B C D'')) demo_open_state)
        5 ''history'') = Some (Some ''A B C D'')"
    by simp_all
  from c demo_closed_facts(2,3)
  have 4: "historyModal (handle (FireOnChange 5 ''history'' (JStr ''A B C D'')) demo_state) = None"
    and 5: "map_option w_inputEl
     (widget_at (handle (FireOnChange 5 ''history'' (JStr ''A B C D'')) demo_state)
        5 ''history'') = Some (Some ''A B C D'')"
    by simp_all
  from demo_open_facts(2,3) 1 2 3 demo_closed_facts(2) 4 5 show ?thesis by (intro conjI)
qed

subsection \<open>one modal\<close>

lemma single_modal_identity:
  "modal_identity s' = modal_identity s \<Longrightarrow> single_modal s' = single_modal s"
  by (cases "historyModal s"; cases "historyModal s'")
     (auto simp: modal_identity_def single_modal_def)

lemma modal_identity_handle:
  "historyModal s \<noteq> None \<Longrightarrow> modal_identity (handle e s) = modal_identity s"
  by (cases e) (simp_all add: modal_identity_open_existing split: option.splits)

lemma modal_identity_handle_not_open:
  "(\<And>k. e \<noteq> ClickOpenHistory k) \<Longrightarrow> modal_identity (handle e s) = modal_identity s"
  by (cases e) (auto split: option.splits)

lemma single_modal_open: "single_modal s \<Longrightarrow> single_modal (openHistoryModal t s)"
  by (cases "historyModal s") (simp_all add: single_modal_def open_first open_existing)

lemma single_modal_handle: "single_modal s \<Longrightarrow> single_modal (handle e s)"
proof (cases e)
  case (ClickOpenHistory k)
  assume "single_modal s"
  then show ?thesis using ClickOpenHistory by (simp add: single_modal_open)
next
  case ClickClose
  assume "single_modal s"
  with single_modal_identity[OF modal_identity_handle_not_open, of e s] ClickClose
  show ?thesis by simp
next
  case (KeyDown x)
  assume "single_modal s"
  with single_modal_identity[OF modal_identity_handle_not_open, of e s] KeyDown
  show ?thesis by simp
next
  case (ClickOverlay x)
  assume "single_modal s"
  with single_modal_identity[OF modal_identity_handle_not_open, of e s] ClickOverlay
  show ?thesis by simp
next
  case (ClickExecute k fr)
  assume "single_modal s"
  with single_modal_identity[OF modal_identity_handle_not_open, of e s] ClickExecute
  show ?thesis by simp
next
  case (FireOnChange k nm v)
  assume "single_modal s"
  with single_modal_identity[OF modal_identity_handle_not_open, of e s] FireOnChange
  show ?thesis by simp
qed

lemma single_modal_fold: "single_modal s \<Longrightarrow> single_modal (fold handle evs s)"
  by (induction evs arbitrary: s) (simp_all add: single_modal_handle)

lemma single_modal_run: "module_loaded s \<Longrightarrow> single_modal (run evs s)"
  unfolding run_def by (rule single_modal_fold) (simp add: module_loaded_def single_modal_def)

lemma single_modal_length: "single_modal s \<Longrightarrow> length (body_children s) \<le> 1"
  by (cases "historyModal s") (simp_all add: single_modal_def)

text \<open>
  C8. From the loading of the module on, whatever buttons are clicked, keys pressed,
  dispatches run and callbacks fired: at most one overlay has been appended to the
  document; once the modal exists every event leaves its overlay, the children of the
  body and the key listener as they are (later opens reuse it); when it does not exist
  an open creates it; and every open replaces the content by the text it is given, so
  that after an open for one node and an open for another only the second text is
  shown.
\<close>

theorem history_modal_singleton:
  assumes "module_loaded s0" and "s = run evs s0"
  shows "single_modal s \<and> length (body_children s) \<le> 1 \<and>
         (\<forall>e. historyModal s \<noteq> None \<longrightarrow> modal_identity (handle e s) = modal_identity s) \<and>
         (\<forall>x. historyModal s = None \<longrightarrow>
            (\<exists>m. historyModal (openHistoryModal x s) = Some m \<and>
                 body_children (openHistoryModal x s) = [overlay_elem m])) \<and>
         (\<forall>a b. map_option content_text
                  (historyModal (openHistoryModal (JStr b) (openHistoryModal (JStr a) s))) =
                Some b) \<and>
         (\<forall>k. map_option content_text (historyModal (handle (ClickOpenHistory k) s)) =
                Some (to_str (or_empty (getHistoryText k s))))"
proof -
  have sm: "single_modal s" unfolding assms(2) by (rule single_modal_run) (rule assms(1))
  have cr: "\<exists>m. historyModal (openHistoryModal x s) = Some m \<and>
                 body_children (openHistoryModal x s) = [overlay_elem m]"
    if "historyModal s = None" for x
    using that sm by (simp add: open_first single_modal_def)
  from sm single_modal_length[OF sm] cr show ?thesis
    by (simp add: modal_identity_handle open_content)
qed

theorem history_modal_singleton_witness:
  "module_loaded demo_state \<and>
   single_modal (run [ClickOpenHistory 5, KeyDown ''Escape'', ClickOpenHistory 3] demo_state) \<and>
   length (body_children
     (run [ClickOpenHistory 5, KeyDown ''Escape'', ClickOpenHistory 3] demo_state)) \<le> 1 \<and>
   historyModal (run [] demo_state) = None \<and>
   (\<exists>m. historyModal (openHistoryModal (JStr ''A'') (run [] demo_state)) = Some m \<and>
        body_children (openHistoryModal (JStr ''A'') (run [] demo_state)) = [overlay_elem m]) \<and>
   map_option content_text
     (historyModal (openHistoryModal (JStr ''B'') (openHistoryModal (JStr ''A'')
        (run [] demo_state)))) = Some ''B''"
proof -
  have ml: "module_loaded demo_state"
    by (simp add: module_loaded_def demo_state_def empty_state_def)
  have n: "historyModal (run [] demo_state) = None"
    by (simp add: run_def demo_state_def empty_state_def)
  note t1 = history_modal_singleton[OF ml refl,
      of "[ClickOpenHistory 5, KeyDown ''Escape'', ClickOpenHistory 3]"]
  note t2 = history_modal_singleton[OF ml refl, of "[]"]
  from t1 have a: "single_modal
      (run [ClickOpenHistory 5, KeyDown ''Escape'', ClickOpenHistory 3] demo_state)"
    by (elim conjE)
  from t1 have b: "length (body_children
     (run [ClickOpenHistory 5, KeyDown ''Escape'', ClickOpenHistory 3] demo_state)) \<le> 1"
    by (elim conjE)
  from t2 have "\<forall>x. historyModal (run [] demo_state) = None \<longrightarrow>
            (\<exists>m. historyModal (openHistoryModal x (run [] demo_state)) = Some m \<and>
                 body_children (openHistoryModal x (run [] demo_state)) = [overlay_elem m])"
    by (elim conjE)
  with n have c: "\<exists>m. historyModal (openHistoryModal (JStr ''A'') (run [] demo_state)) = Some m \<and>
        body_children (openHistoryModal (JStr ''A'') (run [] demo_state)) = [overlay_elem m]"
    by blast
  from t2 have "\<forall>a b. map_option content_text
                  (historyModal (openHistoryModal (JStr b) (openHistoryModal (JStr a)
                     (run [] demo_state)))) = Some b"
    by (elim conjE)
  then have d: "map_option content_text
     (historyModal (openHistoryModal (JStr ''B'') (openHistoryModal (JStr ''A'')
        (run [] demo_state)))) = Some ''B''"
    by blast
  from ml a b n c d show ?thesis by (intro conjI)
qed

lemma watched_facts:
  "has_callback watched_status_state 2 ''status''"
  "selected_action watched_status_state 2 = JStr ''send''"
  by (simp_all add: has_callback_def selected_action_def widget_value_def widget_at_def
      node_widgets_def watched_status_state_def empty_state_def find_widget_def plain_widget_def)

section \<open>Widget writes and change callbacks: claims\<close>

text \<open>
  C4 as stated fails: on a chat node whose status widget has a change callback, a
  dispatch that the backend answers with an error assigns the status twice, each time
  followed by \<^verbatim>\<open>setDirtyCanvas\<close> and not by a call of the callback.
\<close>

theorem sendAction_status_write_not_notified:
  "has_callback watched_status_state 2 ''status'' \<and>
   new_events watched_status_state (sendAction 2 (NotOk ''boom'') watched_status_state) =
     [EvWrite 2 ''status'' (JStr ''working: send...'') True, EvDirty 2,
      EvWrite 2 ''status'' (JStr ''error: boom'') True, EvDirty 2] \<and>
   \<not> writes_notified
       (new_events watched_status_state (sendAction 2 (NotOk ''boom'') watched_status_state))"
proof -
  have th: "postJSON (NotOk ''boom'') = Threw ''boom''" by simp
  have "new_events watched_status_state (sendAction 2 (NotOk ''boom'') watched_status_state) =
     [EvWrite 2 ''status'' (JStr ''working: send...'') True, EvDirty 2,
      EvWrite 2 ''status'' (JStr ''error: boom'') True, EvDirty 2]"
    using new_events_append[OF sendAction_threw_trace[OF th, of 2 watched_status_state]]
    by (simp add: watched_facts)
  then show ?thesis by (simp add: watched_facts)
qed

text \<open>
  C4, amended. Every assignment to a widget's value made by output propagation and by
  \<^verbatim>\<open>setWidgetValue\<close> (the auto-clear) is directly followed by a call of that widget's
  change callback, when it has one. The dispatcher's own stores call no callback: the
  events of a failed dispatch are the two status assignments, each followed by
  \<^verbatim>\<open>setDirtyCanvas\<close>; the events of a successful dispatch are the status assignment and
  \<^verbatim>\<open>setDirtyCanvas\<close>, the assignments to the two stores, then the notified assignments
  of propagation and auto-clear (which do not begin with a callback), then the status
  assignment and \<^verbatim>\<open>setDirtyCanvas\<close>.
\<close>

theorem writes_notified_outside_dispatcher_stores:
  "notified_run (new_events s (propagateOutput nid slot v s)) \<and>
   notified_run (new_events s (setWidgetValue nid nm v s)) \<and>
   (\<forall>m. postJSON fr = Threw m \<longrightarrow>
      new_events s (sendAction nid fr s) =
        [EvWrite nid ''status''
           (JStr (''working: '' @ to_str (selected_action s nid) @ ''...''))
           (has_callback s nid ''status''),
         EvDirty nid,
         EvWrite nid ''status'' (JStr (''error: '' @ m)) (has_callback s nid ''status''),
         EvDirty nid]) \<and>
   (\<forall>data. postJSON fr = Returned data \<longrightarrow>
      (\<exists>es. new_events s (sendAction nid fr s) =
         [EvWrite nid ''status''
            (JStr (''working: '' @ to_str (selected_action s nid) @ ''...''))
            (has_callback s nid ''status''),
          EvDirty nid,
          EvWrite nid ''assistant_response_preview''
            (or_empty (get_prop data ''assistant_response''))
            (has_callback s nid ''assistant_response_preview''),
          EvWrite nid ''history_preview'' (or_empty (get_prop data ''readable_history''))
            (has_callback s nid ''history_preview'')] @
         es @
         [EvWrite nid ''status'' (JStr ''done'') (has_callback s nid ''status''), EvDirty nid] \<and>
         notified_run es))"
proof (intro conjI allI impI)
  from trace_propagateOutput[of nid slot v s] obtain es where
    "trace (propagateOutput nid slot v s) = trace s @ es" "notified_run es" by blast
  then show "notified_run (new_events s (propagateOutput nid slot v s))"
    by (simp add: new_events_append)
next
  from trace_setWidgetValue[of nid nm v s] obtain es where
    "trace (setWidgetValue nid nm v s) = trace s @ es" "notified_run es" by blast
  then show "notified_run (new_events s (setWidgetValue nid nm v s))"
    by (simp add: new_events_append)
next
  fix m assume "postJSON fr = Threw m"
  then show "new_events s (sendAction nid fr s) =
        [EvWrite nid ''status''
           (JStr (''working: '' @ to_str (selected_action s nid) @ ''...''))
           (has_callback s nid ''status''),
         EvDirty nid,
         EvWrite nid ''status'' (JStr (''error: '' @ m)) (has_callback s nid ''status''),
         EvDirty nid]"
    by (intro new_events_append sendAction_threw_trace)
next
  fix data assume ok: "postJSON fr = Returned data"
  from sendAction_returned_trace[OF ok, of nid s] obtain es0 es1 es2 where
    tr: "trace (sendAction nid fr s) =
       trace s @
         [EvWrite nid ''status'' (JStr (''working: '' @ to_str (selected_action s nid) @ ''...''))
            (has_callback s nid ''status''),
          EvDirty nid,
          EvWrite nid ''assistant_response_preview''
            (or_empty (get_prop data ''assistant_response''))
            (has_callback s nid ''assistant_response_preview''),
          EvWrite nid ''history_preview'' (or_empty (get_prop data ''readable_history''))
            (has_callback s nid ''history_preview'')] @
         es0 @ es1 @ es2 @
         [EvWrite nid ''status'' (JStr ''done'') (has_callback s nid ''status''), EvDirty nid]"
    and n: "notified_run es0" "notified_run es1" "notified_run es2"
    by blast
  have nr: "notified_run (es0 @ es1 @ es2)"
    using n by (intro notified_run_append)
  have "new_events s (sendAction nid fr s) =
         [EvWrite nid ''status'' (JStr (''working: '' @ to_str (selected_action s nid) @ ''...''))
            (has_callback s nid ''status''),
          EvDirty nid,
          EvWrite nid ''assistant_response_preview''
            (or_empty (get_prop data ''assistant_response''))
            (has_callback s nid ''assistant_response_preview''),
          EvWrite nid ''history_preview'' (or_empty (get_prop data ''readable_history''))
            (has_callback s nid ''history_preview'')] @
         (es0 @ es1 @ es2) @
         [EvWrite nid ''status'' (JStr ''done'') (has_callback s nid ''status''), EvDirty nid]"
    by (rule new_events_append) (simp add: tr)
  with nr show "\<exists>es. new_events s (sendAction nid fr s) =
         [EvWrite nid ''status''
            (JStr (''working: '' @ to_str (selected_action s nid) @ ''...''))
            (has_callback s nid ''status''),
          EvDirty nid,
          EvWrite nid ''assistant_response_preview''
            (or_empty (get_prop data ''assistant_response''))
            (has_callback s nid ''assistant_response_preview''),
          EvWrite nid ''history_preview'' (or_empty (get_prop data ''readable_history''))
            (has_callback s nid ''history_preview'')] @
         es @
         [EvWrite nid ''status'' (JStr ''done'') (has_callback s nid ''status''), EvDirty nid] \<and>
         notified_run es"
    by blast
qed

theorem writes_notified_outside_dispatcher_stores_witness:
  "notified_run (new_events demo_state (propagateOutput 2 1 (JStr ''A B C'') demo_state)) \<and>
   notified_run
     (new_events demo_state (setWidgetValue 2 ''user_message'' (JStr ''A B C'') demo_state)) \<and>
   postJSON (NotOk ''boom'') = Threw ''boom'' \<and>
   new_events watched_status_state (sendAction 2 (NotOk ''boom'') watched_status_state) =
     [EvWrite 2 ''status'' (JStr ''working: send...'') True, EvDirty 2,
      EvWrite 2 ''status'' (JStr ''error: boom'') True, EvDirty 2]"
proof -
  note t1 = writes_notified_outside_dispatcher_stores[where s = demo_state and nid = 2
      and slot = 1 and v = "JStr ''A B C''" and nm = "''user_message''"
      and fr = "NotOk ''boom''"]
  note t2 = writes_notified_outside_dispatcher_stores[where s = watched_status_state and nid = 2
      and slot = 0 and v = JNull and nm = "''status''" and fr = "NotOk ''boom''"]
  from t1 have a: "notified_run
      (new_events demo_state (propagateOutput 2 1 (JStr ''A B C'') demo_state))"
    by (elim conjE)
  from t1 have b: "notified_run
      (new_events demo_state (setWidgetValue 2 ''user_message'' (JStr ''A B C'') demo_state))"
    by (elim conjE)
  have th: "postJSON (NotOk ''boom'') = Threw ''boom''" by simp
  from t2 have "\<forall>m. postJSON (NotOk ''boom'') = Threw m \<longrightarrow>
      new_events watched_status_state (sendAction 2 (NotOk ''boom'') watched_status_state) =
        [EvWrite 2 ''status''
           (JStr (''working: '' @ to_str (selected_action watched_status_state 2) @ ''...''))
           (has_callback watched_status_state 2 ''status''),
         EvDirty 2,
         EvWrite 2 ''status'' (JStr (''error: '' @ m)) (has_callback watched_status_state 2 ''status''),
         EvDirty 2]"
    by (elim conjE)
  with th have c: "new_events watched_status_state
      (sendAction 2 (NotOk ''boom'') watched_status_state) =
     [EvWrite 2 ''status'' (JStr ''working: send...'') True, EvDirty 2,
      EvWrite 2 ''status'' (JStr ''error: boom'') True, EvDirty 2]"
    by (simp add: watched_facts)
  from a b th c show ?thesis by (intro conjI)
qed

end
